theory Spec2Isabelle
  imports Main "HOL-Library.Sublist" "HOL-Library.AList"
begin

section \<open>Errors\<close>

text \<open>
  The error kinds that the functions of \<^verbatim>\<open>context.cpp\<close> report.  \<open>ParseError\<close> and
  \<open>ValueError\<close> are the codes of \<^verbatim>\<open>MenderContextErrorCategory\<close> that the file raises itself.
  \<open>IoError\<close> stands for the error of \<^verbatim>\<open>io::OpenIfstream\<close> and for the \<^verbatim>\<open>errno\<close> condition
  built after a bad read, \<open>JsonError\<close> for every error of the JSON layer, \<open>DbError\<close> for an
  error of a store operation.  \<open>AssertFailed\<close> is what the macros \<^verbatim>\<open>AssertOrReturnError\<close> and
  \<^verbatim>\<open>AssertOrReturnUnexpected\<close> produce when their condition is false; the macros are declared
  in \<^verbatim>\<open>common/error.hpp\<close>, which is not part of the sources at hand.  \<open>TxnError\<close> carries an
  error code chosen by the caller's continuation.
\<close>

datatype error =
    IoError
  | ParseError
  | ValueError
  | JsonError
  | DbError
  | AssertFailed
  | TxnError nat

section \<open>Device type reader\<close>

text \<open>
  What \<^verbatim>\<open>io::OpenIfstream\<close> finds at a path: nothing that can be opened, something that opens
  but whose first read sets \<^verbatim>\<open>badbit\<close>, or a file with the given bytes.
\<close>

datatype file_node = NoFile | BadFile | File string

text \<open>
  An open \<^verbatim>\<open>ifstream\<close>: the bytes not yet extracted and the \<^verbatim>\<open>eofbit\<close>.
\<close>

record ifstream =
  unread :: string
  eofbit :: bool

text \<open>
  \<^verbatim>\<open>std::getline(is, line)\<close>: extracts up to the first line feed, which is consumed and not
  stored.  When the input ends before a line feed is found the \<^verbatim>\<open>eofbit\<close> is set.
\<close>

definition getline :: "ifstream \<Rightarrow> string \<times> ifstream" where
  "getline is =
     (let s = unread is; line = takeWhile (\<lambda>c. c \<noteq> CHR 0x0A) s in
      if CHR 0x0A \<in> set s
      then (line, is\<lparr>unread := drop (Suc (length line)) s\<rparr>)
      else (line, is\<lparr>unread := [], eofbit := True\<rparr>))"

record config =
  device_type_file :: string
  data_store :: string

text \<open>
  Modelled from the spec: \<^verbatim>\<open>path::Join\<close> (declared in \<^verbatim>\<open>common/path.hpp\<close>, missing here)
  gives the default location of the device type file inside the data store directory.
\<close>

definition path_Join :: "string \<Rightarrow> string \<Rightarrow> string" where
  "path_Join dir name = dir @ ''/'' @ name"

text \<open>
  The part of \<^verbatim>\<open>MenderContext::GetDeviceType\<close> that works on the opened stream
  (lines 205 to 234).  \<^verbatim>\<open>line.substr(0, 12)\<close> is \<open>take 12 line\<close> and, once the prefix
  test has passed, \<^verbatim>\<open>line.substr(12, npos)\<close> is \<open>drop 12 line\<close>.
\<close>

definition parse_device_type :: "string \<Rightarrow> error + string" where
  "parse_device_type content =
     (let (line, is) = getline \<lparr>unread = content, eofbit = False\<rparr> in
      if take 12 line \<noteq> ''device_type='' then Inl ParseError
      else
        let ret = drop 12 line in
        if \<not> eofbit is then
          (let (line2, is2) = getline is in
           if line2 \<noteq> [] \<or> \<not> eofbit is2 then Inl ValueError else Inr ret)
        else Inr ret)"

definition device_type_fpath :: "config \<Rightarrow> string" where
  "device_type_fpath cfg =
     (if device_type_file cfg \<noteq> [] then device_type_file cfg
      else path_Join (data_store cfg) ''device_type'')"

definition GetDeviceType :: "(string \<Rightarrow> file_node) \<Rightarrow> config \<Rightarrow> error + string" where
  "GetDeviceType fs cfg =
     (case fs (device_type_fpath cfg) of
           NoFile \<Rightarrow> Inl IoError
         | BadFile \<Rightarrow> Inl IoError
         | File content \<Rightarrow> parse_device_type content)"

section \<open>Provides data and the pattern filter\<close>

text \<open>
  \<^verbatim>\<open>ProvidesData\<close> is a map from strings to strings and \<^verbatim>\<open>ClearsProvidesData\<close> a vector of
  strings (both declared in \<^verbatim>\<open>context.hpp\<close>).  The map is represented by an association list
  with at most one entry per key: \<^verbatim>\<open>m[k] = v\<close> is \<open>AList.update k v m\<close>, \<^verbatim>\<open>m.erase(k)\<close> is
  \<open>AList.delete k m\<close>, \<^verbatim>\<open>m.find(k)\<close> is \<open>map_of m k\<close>, and a loop over the map visits the
  entries in list order.  The order in which the container of the source is visited is not
  fixed by \<^verbatim>\<open>context.cpp\<close>; it decides the order of the entries in the encoded blob and
  nothing else.
\<close>

type_synonym ProvidesData = "(string \<times> string) list"
type_synonym ClearsProvidesData = "string list"

text \<open>
  \<^verbatim>\<open>std::regex\<close> is taken as a parameter.  An engine maps the text of a regular expression,
  compiled with \<^verbatim>\<open>regex_constants::basic\<close>, to \<open>None\<close> when \<^verbatim>\<open>assign\<close> throws and otherwise
  to the predicate that \<^verbatim>\<open>regex_match\<close> computes on a whole key.
\<close>

type_synonym regex_engine = "string \<Rightarrow> (string \<Rightarrow> bool) option"

definition meta_characters :: string where
  "meta_characters = ''.^$+()[]{}|?''"

text \<open>
  Lines 243 to 259 of \<^verbatim>\<open>FilterProvides\<close>: the regular expression text built from one clear
  pattern.  A \<^verbatim>\<open>*\<close> gets a dot in front of it, a character of \<open>meta_characters\<close> a backslash,
  every other character (the backslash among them) is copied as it is.
\<close>

fun escaped :: "string \<Rightarrow> string" where
  "escaped [] = []"
| "escaped (chr # to_clear) =
     (if chr = CHR ''*'' then [CHR ''.'']
      else if \<exists>c \<in> set meta_characters. chr = c then [CHR 0x5C]
      else [])
     @ [chr] @ escaped to_clear"

text \<open>
  Lines 267 to 275: the keys of \<open>to_modify\<close> that the compiled expression matches are
  collected in a \<^verbatim>\<open>std::set\<close> (here a list without repetitions) and then erased one by one.
\<close>

definition matching_keys :: "(string \<Rightarrow> bool) \<Rightarrow> ProvidesData \<Rightarrow> string list" where
  "matching_keys compiled to_modify =
     fold (\<lambda>provide keys. if compiled (fst provide) then List.insert (fst provide) keys else keys)
       to_modify []"

definition erase_keys :: "string list \<Rightarrow> ProvidesData \<Rightarrow> ProvidesData" where
  "erase_keys keys to_modify = fold AList.delete keys to_modify"

text \<open>
  The loop over \<open>clears_provides\<close> (lines 242 to 276).  A pattern whose expression does not
  compile makes \<^verbatim>\<open>ExceptionToErrorOrAbort\<close> return an error, and the assertion of line 265
  then ends the function.
\<close>

fun clear_loop :: "regex_engine \<Rightarrow> ClearsProvidesData \<Rightarrow> ProvidesData \<Rightarrow> error + ProvidesData" where
  "clear_loop rx [] to_modify = Inr to_modify"
| "clear_loop rx (to_clear # rest) to_modify =
     (case rx (escaped to_clear) of
        None \<Rightarrow> Inl AssertFailed
      | Some compiled \<Rightarrow>
          clear_loop rx rest (erase_keys (matching_keys compiled to_modify) to_modify))"

definition add_provides :: "ProvidesData \<Rightarrow> ProvidesData \<Rightarrow> ProvidesData" where
  "add_provides new_provides to_modify =
     fold (\<lambda>provide m. AList.update (fst provide) (snd provide) m) new_provides to_modify"

definition FilterProvides ::
  "regex_engine \<Rightarrow> ProvidesData \<Rightarrow> ClearsProvidesData \<Rightarrow> ProvidesData \<Rightarrow> error + ProvidesData" where
  "FilterProvides rx new_provides clears_provides to_modify =
     (case clear_loop rx clears_provides to_modify of
        Inl err \<Rightarrow> Inl err
      | Inr cleared \<Rightarrow> Inr (add_provides new_provides cleared))"

section \<open>The merge of \<open>CommitArtifactData\<close>\<close>

text \<open>
  Lines 299 to 320: the four cases on the two optional arguments.
\<close>

definition merge_provides ::
  "regex_engine \<Rightarrow> ProvidesData \<Rightarrow> ProvidesData option \<Rightarrow> ClearsProvidesData option
     \<Rightarrow> error + ProvidesData" where
  "merge_provides rx existing new_provides clears_provides =
     (if new_provides = None \<and> clears_provides = None then Inr []
      else if new_provides = None then FilterProvides rx [] (the clears_provides) existing
      else if clears_provides = None then Inr (the new_provides)
      else FilterProvides rx (the new_provides) (the clears_provides) existing)"

text \<open>
  Lines 322 to 327: the two reserved keys are set from the arguments when these are not
  empty.
\<close>

definition set_reserved :: "string \<Rightarrow> string \<Rightarrow> ProvidesData \<Rightarrow> ProvidesData" where
  "set_reserved artifact_name artifact_group modified_provides =
     (let m1 = (if artifact_name \<noteq> []
                then AList.update ''artifact_name'' artifact_name modified_provides
                else modified_provides)
      in if artifact_group \<noteq> [] then AList.update ''artifact_group'' artifact_group m1 else m1)"

text \<open>
  The reading of the merge that the specification gives: one pattern removes the keys it
  matches, the patterns are applied one after the other, and the new provides are laid over
  the result.
\<close>

definition pattern_matches :: "regex_engine \<Rightarrow> string \<Rightarrow> string \<Rightarrow> bool" where
  "pattern_matches rx pattern key =
     (case rx (escaped pattern) of None \<Rightarrow> False | Some compiled \<Rightarrow> compiled key)"

definition pattern_filter :: "regex_engine \<Rightarrow> string \<Rightarrow> ProvidesData \<Rightarrow> ProvidesData" where
  "pattern_filter rx pattern m = filter (\<lambda>provide. \<not> pattern_matches rx pattern (fst provide)) m"

definition all_compile :: "regex_engine \<Rightarrow> ClearsProvidesData \<Rightarrow> bool" where
  "all_compile rx clears = list_all (\<lambda>pattern. rx (escaped pattern) \<noteq> None) clears"

section \<open>A reference engine for basic regular expressions\<close>

text \<open>
  A model of \<^verbatim>\<open>std::regex\<close> under \<^verbatim>\<open>regex_constants::basic\<close>, the grammar of POSIX basic
  regular expressions, for the expression texts that \<open>escaped\<close> can build.  In this grammar
  the special characters are the dot, the opening bracket, the backslash, the star, the
  caret and the dollar; a backslash in front of one of them makes it ordinary.  The
  parentheses are ordinary characters, and it is the escaped forms \<^verbatim>\<open>\(\<close> and \<^verbatim>\<open>\)\<close> that
  open and close a group.  A backslash at the end of the text is an error
  (\<^verbatim>\<open>error_escape\<close>), and so is a group that is not closed or not opened
  (\<^verbatim>\<open>error_paren\<close>).  The dot matches every character except NUL.

  Regular expressions are kept as terms and matched by derivatives.
\<close>

datatype rexp = Zero | One | Atom char | Dot | Plus rexp rexp | Times rexp rexp | Star rexp

fun nullable :: "rexp \<Rightarrow> bool" where
  "nullable Zero = False"
| "nullable One = True"
| "nullable (Atom c) = False"
| "nullable Dot = False"
| "nullable (Plus r s) = (nullable r \<or> nullable s)"
| "nullable (Times r s) = (nullable r \<and> nullable s)"
| "nullable (Star r) = True"

fun deriv :: "char \<Rightarrow> rexp \<Rightarrow> rexp" where
  "deriv c Zero = Zero"
| "deriv c One = Zero"
| "deriv c (Atom a) = (if c = a then One else Zero)"
| "deriv c Dot = (if c \<noteq> CHR 0x00 then One else Zero)"
| "deriv c (Plus r s) = Plus (deriv c r) (deriv c s)"
| "deriv c (Times r s) =
     (if nullable r then Plus (Times (deriv c r) s) (deriv c s) else Times (deriv c r) s)"
| "deriv c (Star r) = Times (deriv c r) (Star r)"

text \<open>
  \<^verbatim>\<open>regex_match\<close> on a whole key.
\<close>

definition regex_match :: "rexp \<Rightarrow> string \<Rightarrow> bool" where
  "regex_match r key = nullable (fold deriv key r)"

text \<open>
  The concatenation of the items of a group or of the whole expression.
\<close>

fun seq :: "rexp list \<Rightarrow> rexp" where
  "seq [] = One"
| "seq (r # rs) = Times r (seq rs)"

text \<open>
  The outcome of \<^verbatim>\<open>regex::assign\<close>.  \<open>Not_modelled\<close> marks the texts that this model does not
  cover: a bracket expression, an interval \<^verbatim>\<open>\{\<close>, a back-reference, a caret or dollar that
  is not escaped, an empty group, a star with nothing in front of it, a backslash in
  front of an ordinary character, whose meaning POSIX leaves undefined, and a NUL
  character, which the implementations of this grammar do not all accept.  The model puts
  no limit on the size of an expression, where an implementation may refuse one that is
  too large (\<^verbatim>\<open>error_space\<close>).  The parser keeps the items read so far of the current
  group, in reverse, and a stack of the groups that are still open.
\<close>

datatype compile_result = Compiled rexp | Regex_error | Not_modelled

fun bre_parse :: "rexp list list \<Rightarrow> rexp list \<Rightarrow> string \<Rightarrow> compile_result" where
  "bre_parse stack cur [] = (if stack = [] then Compiled (seq (rev cur)) else Regex_error)"
| "bre_parse stack cur (c # cs) =
     (if c = CHR 0x5C then
        (case cs of
           [] \<Rightarrow> Regex_error
         | e # cs' \<Rightarrow>
             if e = CHR ''('' then bre_parse (cur # stack) [] cs'
             else if e = CHR '')'' then
               (case stack of
                  [] \<Rightarrow> Regex_error
                | outer # stack' \<Rightarrow>
                    if cur = [] then Not_modelled
                    else bre_parse stack' (seq (rev cur) # outer) cs')
             else if e \<in> set [CHR ''.'', CHR ''['', CHR 0x5C, CHR ''*'', CHR ''^'', CHR ''$'']
               then bre_parse stack (Atom e # cur) cs'
             else Not_modelled)
      else if c = CHR ''*'' then
        (case cur of
           [] \<Rightarrow> Not_modelled
         | r # cur' \<Rightarrow> bre_parse stack (Star r # cur') cs)
      else if c = CHR ''.'' then bre_parse stack (Dot # cur) cs
      else if c = CHR ''['' \<or> c = CHR ''^'' \<or> c = CHR ''$'' \<or> c = CHR 0x00 then Not_modelled
      else bre_parse stack (Atom c # cur) cs)"

text \<open>
  The engine in the form that \<open>FilterProvides\<close> takes.  What an implementation does with a
  text that the model does not cover is left open: it is the parameter \<open>other\<close>, and what
  is proved about the engine holds for every choice of it.
\<close>

definition posix_basic :: "regex_engine \<Rightarrow> regex_engine" where
  "posix_basic other text =
     (case bre_parse [] [] text of
        Compiled r \<Rightarrow> Some (regex_match r)
      | Regex_error \<Rightarrow> None
      | Not_modelled \<Rightarrow> other text)"

text \<open>
  The reading of a clear pattern that the specification gives: \<^verbatim>\<open>*\<close> matches zero or more
  arbitrary characters, every other character matches itself, and the whole key must be
  matched.
\<close>

fun glob_match :: "string \<Rightarrow> string \<Rightarrow> bool" where
  "glob_match [] [] = True"
| "glob_match [] (k # key) = False"
| "glob_match (p # pattern) [] = (p = CHR ''*'' \<and> glob_match pattern [])"
| "glob_match (p # pattern) (k # key) =
     (if p = CHR ''*'' then glob_match pattern (k # key) \<or> glob_match (p # pattern) key
      else p = k \<and> glob_match pattern key)"

text \<open>
  The patterns on which \<open>escaped\<close> and the basic grammar agree with this reading: those
  without a backslash, without parentheses and braces, without NUL, and without the four
  characters that \<open>escaped\<close> turns into an escape that POSIX leaves undefined.
\<close>

definition plain_pattern :: "string \<Rightarrow> bool" where
  "plain_pattern pattern =
     list_all (\<lambda>c. c \<notin> set [CHR 0x5C, CHR ''('', CHR '')'', CHR ''{'', CHR ''}'', CHR '']'',
                              CHR ''+'', CHR ''?'', CHR ''|'', CHR 0x00]) pattern"

text \<open>
  The expression that a plain pattern compiles to has one item for each of its characters.
\<close>

definition glob_item :: "char \<Rightarrow> rexp" where
  "glob_item c = (if c = CHR ''*'' then Star Dot else Atom c)"

text \<open>
  The language of a regular expression, used to reason about the matcher.
\<close>

definition conc :: "string set \<Rightarrow> string set \<Rightarrow> string set" where
  "conc A B = {a @ b | a b. a \<in> A \<and> b \<in> B}"

inductive_set star :: "string set \<Rightarrow> string set" for A :: "string set" where
  star_Nil: "[] \<in> star A"
| star_step: "a \<in> A \<Longrightarrow> w \<in> star A \<Longrightarrow> a @ w \<in> star A"

fun lang :: "rexp \<Rightarrow> string set" where
  "lang Zero = {}"
| "lang One = {[]}"
| "lang (Atom c) = {[c]}"
| "lang Dot = {[c] | c. c \<noteq> CHR 0x00}"
| "lang (Plus r s) = lang r \<union> lang s"
| "lang (Times r s) = conc (lang r) (lang s)"
| "lang (Star r) = star (lang r)"

section \<open>The JSON layer\<close>

text \<open>
  Modelled from the spec: \<^verbatim>\<open>json::EscapeString\<close> (defined in \<^verbatim>\<open>common/json\<close>, missing here)
  escapes a value for embedding in a JSON string: the quote, the backslash and the control
  characters.  The control characters that JSON names get their two-character form, the
  others the form \<^verbatim>\<open>\u00XX\<close>.
\<close>

definition hexchar :: "nat \<Rightarrow> char" where
  "hexchar n = (if n < 10 then char_of (48 + n) else char_of (87 + n))"

fun EscapeString :: "string \<Rightarrow> string" where
  "EscapeString [] = []"
| "EscapeString (ch # str) =
     (if ch = CHR 0x22 then [CHR 0x5C, CHR 0x22]
      else if ch = CHR 0x5C then [CHR 0x5C, CHR 0x5C]
      else if ch = CHR 0x08 then [CHR 0x5C, CHR ''b'']
      else if ch = CHR 0x0C then [CHR 0x5C, CHR ''f'']
      else if ch = CHR 0x0A then [CHR 0x5C, CHR ''n'']
      else if ch = CHR 0x0D then [CHR 0x5C, CHR ''r'']
      else if ch = CHR 0x09 then [CHR 0x5C, CHR ''t'']
      else if (of_char ch :: nat) < 0x20
        then [CHR 0x5C, CHR ''u'', CHR ''0'', CHR ''0'',
              hexchar (of_char ch div 16), hexchar (of_char ch mod 16)]
      else [ch])
     @ EscapeString str"

text \<open>
  Modelled from the spec: \<^verbatim>\<open>json::Load\<close>, \<^verbatim>\<open>GetChildren\<close>, \<^verbatim>\<open>IsString\<close> and \<^verbatim>\<open>GetString\<close>
  (missing here) are used by \<open>LoadProvides\<close> to decode the stored blob: it is parsed as a
  JSON object, every child must be a string, and everything else is an error.  The decoder
  below accepts exactly the JSON objects all of whose members are strings and returns the
  members in the order of the text; it does not tell a text that is not JSON from a JSON
  text of another shape.  \<open>json_string\<close> reads a string after its opening quote and returns it
  with the text that follows the closing quote.  An escape \<^verbatim>\<open>\uXXXX\<close> is decoded to UTF-8, a
  pair of surrogates to one code point.
\<close>

definition hex_digit :: "char \<Rightarrow> nat option" where
  "hex_digit c =
     (let n = (of_char c :: nat) in
      if 48 \<le> n \<and> n \<le> 57 then Some (n - 48)
      else if 97 \<le> n \<and> n \<le> 102 then Some (n - 87)
      else if 65 \<le> n \<and> n \<le> 70 then Some (n - 55)
      else None)"

fun hex4 :: "string \<Rightarrow> nat option" where
  "hex4 [a, b, c, d] =
     (case (hex_digit a, hex_digit b, hex_digit c, hex_digit d) of
        (Some x, Some y, Some z, Some w) \<Rightarrow> Some (((x * 16 + y) * 16 + z) * 16 + w)
      | _ \<Rightarrow> None)"
| "hex4 _ = None"

definition utf8 :: "nat \<Rightarrow> string" where
  "utf8 n =
     (if n < 0x80 then [char_of n]
      else if n < 0x800 then [char_of (0xC0 + n div 0x40), char_of (0x80 + n mod 0x40)]
      else if n < 0x10000 then
        [char_of (0xE0 + n div 0x1000), char_of (0x80 + n div 0x40 mod 0x40),
         char_of (0x80 + n mod 0x40)]
      else
        [char_of (0xF0 + n div 0x40000), char_of (0x80 + n div 0x1000 mod 0x40),
         char_of (0x80 + n div 0x40 mod 0x40), char_of (0x80 + n mod 0x40)])"

definition unescape :: "char \<Rightarrow> char option" where
  "unescape e =
     (if e = CHR 0x22 then Some (CHR 0x22)
      else if e = CHR 0x5C then Some (CHR 0x5C)
      else if e = CHR ''/'' then Some (CHR ''/'')
      else if e = CHR ''b'' then Some (CHR 0x08)
      else if e = CHR ''f'' then Some (CHR 0x0C)
      else if e = CHR ''n'' then Some (CHR 0x0A)
      else if e = CHR ''r'' then Some (CHR 0x0D)
      else if e = CHR ''t'' then Some (CHR 0x09)
      else None)"

definition push :: "string \<Rightarrow> (string \<times> string) option \<Rightarrow> (string \<times> string) option" where
  "push s r = map_option (\<lambda>(str, rest). (s @ str, rest)) r"

function json_string :: "string \<Rightarrow> (string \<times> string) option" where
  "json_string [] = None"
| "json_string (c # cs) =
     (if c = CHR 0x22 then Some ([], cs)
      else if c = CHR 0x5C then
        (case cs of
           [] \<Rightarrow> None
         | e # cs' \<Rightarrow>
             if e = CHR ''u'' then
               (case hex4 (take 4 cs') of
                  None \<Rightarrow> None
                | Some hi \<Rightarrow>
                    if 0xD800 \<le> hi \<and> hi < 0xDC00 then
                      (if take 2 (drop 4 cs') = [CHR 0x5C, CHR ''u''] then
                         (case hex4 (take 4 (drop 6 cs')) of
                            None \<Rightarrow> None
                          | Some lo \<Rightarrow>
                              if 0xDC00 \<le> lo \<and> lo < 0xE000
                              then push (utf8 (0x10000 + (hi - 0xD800) * 0x400 + (lo - 0xDC00)))
                                     (json_string (drop 10 cs'))
                              else None)
                       else None)
                    else if 0xDC00 \<le> hi \<and> hi < 0xE000 then None
                    else push (utf8 hi) (json_string (drop 4 cs')))
             else
               (case unescape e of
                  None \<Rightarrow> None
                | Some ch \<Rightarrow> push [ch] (json_string cs')))
      else if (of_char c :: nat) < 0x20 then None
      else push [c] (json_string cs))"
  by pat_completeness auto
termination
  by (relation "measure length") auto

definition is_ws :: "char \<Rightarrow> bool" where
  "is_ws c = (c = CHR '' '' \<or> c = CHR 0x09 \<or> c = CHR 0x0A \<or> c = CHR 0x0D)"

definition skip_ws :: "string \<Rightarrow> string" where
  "skip_ws s = dropWhile is_ws s"

text \<open>
  The members of an object, from the opening quote of the first key to the end of the text.
\<close>

function json_members :: "string \<Rightarrow> (string \<times> string) list option" where
  "json_members s =
     (case s of
        [] \<Rightarrow> None
      | q # s1 \<Rightarrow>
          if q \<noteq> CHR 0x22 then None
          else
            (case json_string s1 of
               None \<Rightarrow> None
             | Some (key, s2) \<Rightarrow>
                 (case skip_ws s2 of
                    [] \<Rightarrow> None
                  | colon # s3 \<Rightarrow>
                      if colon \<noteq> CHR '':'' then None
                      else
                        (case skip_ws s3 of
                           [] \<Rightarrow> None
                         | q' # s4 \<Rightarrow>
                             if q' \<noteq> CHR 0x22 then None
                             else
                               (case json_string s4 of
                                  None \<Rightarrow> None
                                | Some (val, s5) \<Rightarrow>
                                    (case skip_ws s5 of
                                       [] \<Rightarrow> None
                                     | sep # s6 \<Rightarrow>
                                         if sep = CHR '','' then
                                           map_option ((#) (key, val)) (json_members (skip_ws s6))
                                         else if sep = CHR ''}'' then
                                           (if skip_ws s6 = [] then Some [(key, val)] else None)
                                         else None))))))"
  by pat_completeness auto
termination
proof (relation "measure length", goal_cases)
  case 1
  show ?case by simp
next
  case (2 s q s1 kr key s2 colon s3 q' s4 vr val s5 sep s6)
  have skip: "length (skip_ws t) \<le> length t" for t
    by (simp add: skip_ws_def length_dropWhile_le)
  have pushD: "\<exists>str'. r = Some (str', rest) \<and> str = p @ str'"
    if "push p r = Some (str, rest)" for p r str rest
    using that by (cases r) (auto simp: push_def)
  have shorter: "length rest < length t" if "json_string t = Some (str, rest)" for t str rest
    using that
  proof (induction "length t" arbitrary: t str rest rule: less_induct)
    case less
    obtain c cs where t: "t = c # cs"
      using less.prems by (cases t) auto
    have step: "length rest < length u"
      if "json_string u = Some (str', rest)" "length u \<le> length cs" for u str'
      using less.hyps [of u str' rest] that by (simp add: t)
    from less.prems [unfolded t json_string.simps]
    show ?case
      by (auto simp: t split: if_splits list.splits option.splits dest!: pushD
          dest!: step)
  qed
  have "length s6 < length (skip_ws s5)" using 2 by simp
  also have "\<dots> \<le> length s5" by (rule skip)
  also have "\<dots> < length s4" using 2 shorter by fastforce
  also have "\<dots> < length (skip_ws s3)" using 2 by simp
  also have "\<dots> \<le> length s3" by (rule skip)
  also have "\<dots> < length (skip_ws s2)" using 2 by simp
  also have "\<dots> \<le> length s2" by (rule skip)
  also have "\<dots> < length s1" using 2 shorter by fastforce
  also have "\<dots> < length s" using 2 by simp
  finally have "length s6 < length s" .
  with skip [of s6] show ?case by simp
qed

declare json_members.simps [simp del]

definition json_object :: "string \<Rightarrow> error + (string \<times> string) list" where
  "json_object text =
     (case skip_ws text of
        [] \<Rightarrow> Inl JsonError
      | c # s1 \<Rightarrow>
          if c \<noteq> CHR ''{'' then Inl JsonError
          else
            (case skip_ws s1 of
               [] \<Rightarrow> Inl JsonError
             | c' # s2 \<Rightarrow>
                 if c' = CHR ''}'' then (if skip_ws s2 = [] then Inr [] else Inl JsonError)
                 else
                   (case json_members (c' # s2) of
                      None \<Rightarrow> Inl JsonError
                    | Some children \<Rightarrow> Inr children)))"

section \<open>The durable store\<close>

text \<open>
  The store maps keys to values; a transaction works on a copy of it.  The operations of a
  transaction can fail: the parameter \<open>fault\<close> says which ones do.
\<close>

type_synonym store = "string \<rightharpoonup> string"

datatype db_op = Read string | Write string string | Remove string

definition artifact_name_key :: string where
  "artifact_name_key = ''artifact-name''"

definition artifact_group_key :: string where
  "artifact_group_key = ''artifact-group''"

definition artifact_provides_key :: string where
  "artifact_provides_key = ''artifact-provides''"

text \<open>
  Modelled from the spec: \<^verbatim>\<open>kv_db::ReadString\<close> with \<^verbatim>\<open>missing_ok = true\<close>, and the methods
  \<^verbatim>\<open>Write\<close> and \<^verbatim>\<open>Remove\<close> of \<^verbatim>\<open>kv_db::Transaction\<close> (declared in
  \<^verbatim>\<open>common/key_value_database.hpp\<close>, missing here).  A key that is absent reads as the empty
  string, and removing an absent key is not an error.
\<close>

definition ReadString :: "(db_op \<Rightarrow> bool) \<Rightarrow> store \<Rightarrow> string \<Rightarrow> error + string" where
  "ReadString fault txn key =
     (if fault (Read key) then Inl DbError
      else Inr (case txn key of None \<Rightarrow> [] | Some v \<Rightarrow> v))"

definition txn_Write ::
  "(db_op \<Rightarrow> bool) \<Rightarrow> string \<Rightarrow> string \<Rightarrow> store \<Rightarrow> error option \<times> store" where
  "txn_Write fault key val txn =
     (if fault (Write key val) then (Some DbError, txn) else (None, txn(key \<mapsto> val)))"

definition txn_Remove :: "(db_op \<Rightarrow> bool) \<Rightarrow> string \<Rightarrow> store \<Rightarrow> error option \<times> store" where
  "txn_Remove fault key txn =
     (if fault (Remove key) then (Some DbError, txn) else (None, txn(key := None)))"

text \<open>
  Modelled from the spec: \<^verbatim>\<open>WriteTransaction\<close> of \<^verbatim>\<open>kv_db::KeyValueDatabase\<close> (missing here)
  runs the function on a transaction.  When the function returns no error the writes of the
  transaction become the store; when it returns an error the store discards them all.
\<close>

definition WriteTransaction ::
  "store \<Rightarrow> (store \<Rightarrow> error option \<times> store) \<Rightarrow> error option \<times> store" where
  "WriteTransaction db func =
     (case func db of
        (None, txn) \<Rightarrow> (None, txn)
      | (Some err, txn) \<Rightarrow> (Some err, db))"

section \<open>Loading and committing the provides\<close>

text \<open>
  \<^verbatim>\<open>MenderContext::LoadProvides(txn)\<close>, lines 140 to 191.
\<close>

definition LoadProvides :: "(db_op \<Rightarrow> bool) \<Rightarrow> store \<Rightarrow> error + ProvidesData" where
  "LoadProvides fault txn =
     (case ReadString fault txn artifact_name_key of
        Inl err \<Rightarrow> Inl err
      | Inr artifact_name \<Rightarrow>
     (case ReadString fault txn artifact_group_key of
        Inl err \<Rightarrow> Inl err
      | Inr artifact_group \<Rightarrow>
     (case ReadString fault txn artifact_provides_key of
        Inl err \<Rightarrow> Inl err
      | Inr artifact_provides_str \<Rightarrow>
          let ret0 = (if artifact_name \<noteq> []
                      then AList.update ''artifact_name'' artifact_name [] else []);
              ret = (if artifact_group \<noteq> []
                     then AList.update ''artifact_group'' artifact_group ret0 else ret0)
          in
          if artifact_provides_str = [] then Inr ret
          else
            (case json_object artifact_provides_str of
               Inl err \<Rightarrow> Inl err
             | Inr children \<Rightarrow>
                 Inr (fold (\<lambda>it m. AList.update (fst it) (snd it) m) children ret)))))"

text \<open>
  Lines 329 to 344: the blob written under \<^verbatim>\<open>artifact-provides\<close>.  The key is copied as it
  is, the value goes through \<open>EscapeString\<close>.
\<close>

definition provides_entry :: "string \<times> string \<Rightarrow> string" where
  "provides_entry it =
     (if fst it \<noteq> ''artifact_name'' \<and> fst it \<noteq> ''artifact_group''
      then [CHR 0x22] @ fst it @ [CHR 0x22, CHR '':''] @ [CHR 0x22] @ EscapeString (snd it)
           @ [CHR 0x22, CHR '','']
      else [])"

definition provides_str :: "ProvidesData \<Rightarrow> string" where
  "provides_str modified_provides =
     (let artifact_provides_str = ''{'' @ concat (map provides_entry modified_provides)
      in if artifact_provides_str \<noteq> ''{''
         then butlast artifact_provides_str @ ''}''
         else [])"

text \<open>
  \<^verbatim>\<open>modified_provides[key]\<close> read as a value: the empty string when the key is absent.
\<close>

definition value_or_empty :: "ProvidesData \<Rightarrow> string \<Rightarrow> string" where
  "value_or_empty m key = (case map_of m key of None \<Rightarrow> [] | Some v \<Rightarrow> v)"

text \<open>
  Lines 346 to 376: the three records are written, then the continuation of the caller runs
  on the same transaction.
\<close>

definition write_records ::
  "(db_op \<Rightarrow> bool) \<Rightarrow> ProvidesData \<Rightarrow> (store \<Rightarrow> error option \<times> store) \<Rightarrow> store
     \<Rightarrow> error option \<times> store" where
  "write_records fault modified_provides txn_func txn =
     (let artifact_provides_str = provides_str modified_provides in
      if value_or_empty modified_provides ''artifact_name'' \<noteq> [] then
        (case txn_Write fault artifact_name_key
                (value_or_empty modified_provides ''artifact_name'') txn of
           (Some err, txn1) \<Rightarrow> (Some err, txn1)
         | (None, txn1) \<Rightarrow>
             (case (if value_or_empty modified_provides ''artifact_group'' \<noteq> []
                    then txn_Write fault artifact_group_key
                           (value_or_empty modified_provides ''artifact_group'') txn1
                    else txn_Remove fault artifact_group_key txn1) of
                (Some err, txn2) \<Rightarrow> (Some err, txn2)
              | (None, txn2) \<Rightarrow>
                  if artifact_provides_str \<noteq> [] then
                    (case txn_Write fault artifact_provides_key artifact_provides_str txn2 of
                       (Some err, txn3) \<Rightarrow> (Some err, txn3)
                     | (None, txn3) \<Rightarrow> txn_func txn3)
                  else txn_func txn2))
      else (Some AssertFailed, txn))"

text \<open>
  \<^verbatim>\<open>MenderContext::CommitArtifactData\<close>, lines 286 to 378.  The result is the error, if any,
  and the store after the call.
\<close>

definition CommitArtifactData ::
  "regex_engine \<Rightarrow> (db_op \<Rightarrow> bool) \<Rightarrow> store \<Rightarrow> string \<Rightarrow> string \<Rightarrow> ProvidesData option
     \<Rightarrow> ClearsProvidesData option \<Rightarrow> (store \<Rightarrow> error option \<times> store)
     \<Rightarrow> error option \<times> store" where
  "CommitArtifactData rx fault mender_store artifact_name artifact_group new_provides
       clears_provides txn_func =
     WriteTransaction mender_store (\<lambda>txn.
       case LoadProvides fault txn of
         Inl err \<Rightarrow> (Some err, txn)
       | Inr existing \<Rightarrow>
           (case merge_provides rx existing new_provides clears_provides of
              Inl err \<Rightarrow> (Some err, txn)
            | Inr merged \<Rightarrow>
                write_records fault (set_reserved artifact_name artifact_group merged)
                  txn_func txn))"

text \<open>
  The mappings that the encoder can represent: no key is reserved, and no key has a quote, a
  backslash or a control character, the characters that a JSON string must escape.
\<close>

definition plain_key :: "string \<Rightarrow> bool" where
  "plain_key key =
     list_all (\<lambda>c. c \<noteq> CHR 0x22 \<and> c \<noteq> CHR 0x5C \<and> \<not> (of_char c :: nat) < 0x20) key"

definition unreserved :: "string \<Rightarrow> bool" where
  "unreserved key = (key \<noteq> ''artifact_name'' \<and> key \<noteq> ''artifact_group'')"

definition encodable :: "ProvidesData \<Rightarrow> bool" where
  "encodable m = list_all (\<lambda>it. unreserved (fst it) \<and> plain_key (fst it)) m"

section \<open>Compatibility matcher\<close>

text \<open>
  The parts of \<^verbatim>\<open>artifact::HeaderInfo\<close> and \<^verbatim>\<open>artifact::TypeInfo\<close> that the matcher reads.  The
  field names carry a prefix, the names of the source being used for arguments elsewhere.
\<close>

record HeaderDepends =
  dep_device_type :: "string list"
  dep_artifact_name :: "string list option"
  dep_artifact_group :: "string list option"

record HeaderInfo =
  depends :: HeaderDepends

record TypeInfo =
  artifact_depends :: "(string \<times> string) list option"

text \<open>
  Modelled from the spec: \<^verbatim>\<open>common::MapContainsStringKey\<close> and \<^verbatim>\<open>common::VectorContainsString\<close>
  (declared in \<^verbatim>\<open>common/common.hpp\<close>, missing here) say whether the map has the key and
  whether the vector has the string as an element.
\<close>

definition MapContainsStringKey :: "ProvidesData \<Rightarrow> string \<Rightarrow> bool" where
  "MapContainsStringKey m str = (map_of m str \<noteq> None)"

definition VectorContainsString :: "string list \<Rightarrow> string \<Rightarrow> bool" where
  "VectorContainsString vec str = (str \<in> set vec)"

text \<open>
  \<^verbatim>\<open>provides.at(key)\<close>, which the source calls only after the key was found.
\<close>

definition at :: "ProvidesData \<Rightarrow> string \<Rightarrow> string" where
  "at m key = the (map_of m key)"

text \<open>
  The loop of lines 439 to 451 over the type-info depends.
\<close>

fun depends_hold :: "ProvidesData \<Rightarrow> (string \<times> string) list \<Rightarrow> bool" where
  "depends_hold provides [] = True"
| "depends_hold provides (it # rest) =
     (if \<not> MapContainsStringKey provides (fst it) then False
      else if at provides (fst it) \<noteq> snd it then False
      else depends_hold provides rest)"

text \<open>
  \<^verbatim>\<open>ArtifactMatchesContext\<close>, lines 394 to 454, check after check.  A false
  \<^verbatim>\<open>AssertOrReturnUnexpected\<close> gives \<open>AssertFailed\<close>.
\<close>

definition ArtifactMatchesContext ::
  "ProvidesData \<Rightarrow> string \<Rightarrow> HeaderInfo \<Rightarrow> TypeInfo \<Rightarrow> error + bool" where
  "ArtifactMatchesContext provides device_type hdr_info type_info =
     (if \<not> MapContainsStringKey provides ''artifact_name'' then Inl ValueError
      else
        let hdr_depends = depends hdr_info in
        if \<not> length (dep_device_type hdr_depends) > 0 then Inl AssertFailed
        else if \<not> VectorContainsString (dep_device_type hdr_depends) device_type then Inr False
        else if dep_artifact_name hdr_depends \<noteq> None
                \<and> \<not> length (the (dep_artifact_name hdr_depends)) > 0 then Inl AssertFailed
        else if dep_artifact_name hdr_depends \<noteq> None
                \<and> \<not> VectorContainsString (the (dep_artifact_name hdr_depends))
                       (at provides ''artifact_name'') then Inr False
        else if dep_artifact_group hdr_depends \<noteq> None
                \<and> \<not> length (the (dep_artifact_group hdr_depends)) > 0 then Inl AssertFailed
        else if dep_artifact_group hdr_depends \<noteq> None
                \<and> \<not> MapContainsStringKey provides ''artifact_group'' then Inr False
        else if dep_artifact_group hdr_depends \<noteq> None
                \<and> \<not> VectorContainsString (the (dep_artifact_group hdr_depends))
                       (at provides ''artifact_group'') then Inr False
        else
          (case artifact_depends type_info of
             None \<Rightarrow> Inr True
           | Some ti_depends \<Rightarrow> Inr (depends_hold provides ti_depends)))"

text \<open>
  The invariant of the header depends that the parser of the artifact establishes, and that
  the three assertions of the matcher check again: the list of device types is not empty,
  and neither is a list of names or of groups that is present.
\<close>

definition wf_depends :: "HeaderDepends \<Rightarrow> bool" where
  "wf_depends d =
     (dep_device_type d \<noteq> []
      \<and> dep_artifact_name d \<noteq> Some []
      \<and> dep_artifact_group d \<noteq> Some [])"

section \<open>Properties of the device type reader\<close>

lemma getline_no_lf:
  "CHR 0x0A \<notin> set v \<Longrightarrow>
   getline \<lparr>unread = v, eofbit = e\<rparr> = (v, \<lparr>unread = [], eofbit = True\<rparr>)"
  by (auto simp add: getline_def takeWhile_eq_all_conv)

lemma takeWhile_line:
  "CHR 0x0A \<notin> set v \<Longrightarrow> takeWhile (\<lambda>c. c \<noteq> CHR 0x0A) (v @ CHR 0x0A # r) = v"
  by (induction v) auto

lemma getline_lf:
  "CHR 0x0A \<notin> set v \<Longrightarrow>
   getline \<lparr>unread = v @ CHR 0x0A # r, eofbit = e\<rparr> = (v, \<lparr>unread = r, eofbit = e\<rparr>)"
  by (simp add: getline_def takeWhile_line)

lemma parse_device_type_eof:
  "CHR 0x0A \<notin> set v \<Longrightarrow> parse_device_type (''device_type='' @ v) = Inr v"
  using getline_no_lf [where v = "''device_type='' @ v" and e = False]
  by (simp add: parse_device_type_def)

lemma parse_device_type_newline:
  "CHR 0x0A \<notin> set v \<Longrightarrow> parse_device_type (''device_type='' @ v @ [CHR 0x0A]) = Inr v"
  using getline_lf [where v = "''device_type='' @ v" and r = "[]" and e = False]
    getline_no_lf [where v = "[]" and e = False]
  by (simp add: parse_device_type_def)

lemma parse_device_type_trailing:
  assumes "CHR 0x0A \<notin> set v" "r \<noteq> []"
  shows "parse_device_type (''device_type='' @ v @ CHR 0x0A # r) = Inl ValueError"
proof -
  have first: "getline \<lparr>unread = ''device_type='' @ v @ CHR 0x0A # r, eofbit = False\<rparr>
           = (''device_type='' @ v, \<lparr>unread = r, eofbit = False\<rparr>)"
    using getline_lf [where v = "''device_type='' @ v" and r = r and e = False] assms by simp
  have second: "fst (getline \<lparr>unread = r, eofbit = False\<rparr>) \<noteq> []
            \<or> \<not> eofbit (snd (getline \<lparr>unread = r, eofbit = False\<rparr>))"
    using assms(2) by (cases r) (auto simp: getline_def Let_def)
  show ?thesis
    using first second by (auto simp: parse_device_type_def split: prod.splits)
qed

lemma parse_device_type_no_prefix:
  assumes "\<not> prefix ''device_type='' (takeWhile (\<lambda>c. c \<noteq> CHR 0x0A) content)"
  shows "parse_device_type content = Inl ParseError"
proof -
  have "fst (getline \<lparr>unread = content, eofbit = False\<rparr>)
          = takeWhile (\<lambda>c. c \<noteq> CHR 0x0A) content"
    by (simp add: getline_def Let_def)
  moreover have "take 12 l \<noteq> ''device_type=''" if "\<not> prefix ''device_type='' l" for l
    using that by (metis take_is_prefix)
  ultimately show ?thesis
    using assms by (auto simp: parse_device_type_def split: prod.splits)
qed

text \<open>
  Claim C8.  For a file that can be read, \<open>GetDeviceType\<close> returns the rest of the first line
  after the prefix \<^verbatim>\<open>device_type=\<close>, byte for byte, when the file ends with that line or with
  the single line feed that terminates it.  It reports \<open>ParseError\<close> when the first line does not
  begin with the prefix, and \<open>ValueError\<close> when anything at all follows the line feed of the
  first line, be it a second line feed only.  The one empty line that is accepted after the
  first is thus the empty rest of a file that ends with the line feed of its first line.
\<close>

theorem GetDeviceType_contract:
  assumes "fs (device_type_fpath cfg) = File content"
  shows "(\<forall>v. CHR 0x0A \<notin> set v
              \<and> (content = ''device_type='' @ v \<or> content = ''device_type='' @ v @ [CHR 0x0A])
            \<longrightarrow> GetDeviceType fs cfg = Inr v)
       \<and> (\<not> prefix ''device_type='' (takeWhile (\<lambda>c. c \<noteq> CHR 0x0A) content)
            \<longrightarrow> GetDeviceType fs cfg = Inl ParseError)
       \<and> (\<forall>v r. CHR 0x0A \<notin> set v \<and> r \<noteq> [] \<and> content = ''device_type='' @ v @ CHR 0x0A # r
            \<longrightarrow> GetDeviceType fs cfg = Inl ValueError)"
proof -
  have run: "GetDeviceType fs cfg = parse_device_type content"
    using assms by (simp add: GetDeviceType_def)
  show ?thesis
    unfolding run
    using parse_device_type_eof parse_device_type_newline parse_device_type_trailing
      parse_device_type_no_prefix
    by blast
qed

theorem GetDeviceType_contract_witness:
  "GetDeviceType (\<lambda>p. File ''device_type=foo\<newline>'')
       \<lparr>device_type_file = ''/etc/device_type'', data_store = ''/var/lib''\<rparr> = Inr ''foo''
   \<and> GetDeviceType (\<lambda>p. File ''device_type=foo\<newline>bar\<newline>'')
       \<lparr>device_type_file = ''/etc/device_type'', data_store = ''/var/lib''\<rparr> = Inl ValueError
   \<and> GetDeviceType (\<lambda>p. File ''foo'')
       \<lparr>device_type_file = ''/etc/device_type'', data_store = ''/var/lib''\<rparr> = Inl ParseError
   \<and> GetDeviceType (\<lambda>p. File ''device_type=foo \<newline>'')
       \<lparr>device_type_file = ''/etc/device_type'', data_store = ''/var/lib''\<rparr> = Inr ''foo ''
   \<and> GetDeviceType (\<lambda>p. File ''device_type=foo\<newline>\<newline>'')
       \<lparr>device_type_file = ''/etc/device_type'', data_store = ''/var/lib''\<rparr> = Inl ValueError"
proof -
  let ?cfg = "\<lparr>device_type_file = ''/etc/device_type'', data_store = ''/var/lib''\<rparr>"
  have a: "(\<lambda>p. File ''device_type=foo\<newline>'') (device_type_fpath ?cfg)
             = File ''device_type=foo\<newline>''"
    by simp
  have b: "(\<lambda>p. File ''device_type=foo\<newline>bar\<newline>'') (device_type_fpath ?cfg)
             = File ''device_type=foo\<newline>bar\<newline>''"
    by simp
  have c: "(\<lambda>p. File ''foo'') (device_type_fpath ?cfg) = File ''foo''"
    by simp
  have d: "(\<lambda>p. File ''device_type=foo \<newline>'') (device_type_fpath ?cfg)
             = File ''device_type=foo \<newline>''"
    by simp
  have e: "(\<lambda>p. File ''device_type=foo\<newline>\<newline>'') (device_type_fpath ?cfg)
             = File ''device_type=foo\<newline>\<newline>''"
    by simp
  have "GetDeviceType (\<lambda>p. File ''device_type=foo\<newline>'') ?cfg = Inr ''foo''"
    using GetDeviceType_contract [OF a, THEN conjunct1, rule_format, of "''foo''"] by simp
  moreover have "GetDeviceType (\<lambda>p. File ''device_type=foo\<newline>bar\<newline>'') ?cfg
      = Inl ValueError"
    using GetDeviceType_contract [OF b, THEN conjunct2, THEN conjunct2, rule_format,
        of "''foo''" "''bar\<newline>''"]
    by simp
  moreover have "GetDeviceType (\<lambda>p. File ''foo'') ?cfg = Inl ParseError"
    using GetDeviceType_contract [OF c, THEN conjunct2, THEN conjunct1] by simp
  moreover have "GetDeviceType (\<lambda>p. File ''device_type=foo \<newline>'') ?cfg = Inr ''foo ''"
    using GetDeviceType_contract [OF d, THEN conjunct1, rule_format, of "''foo ''"] by simp
  moreover have "GetDeviceType (\<lambda>p. File ''device_type=foo\<newline>\<newline>'') ?cfg
      = Inl ValueError"
    using GetDeviceType_contract [OF e, THEN conjunct2, THEN conjunct2, rule_format,
        of "''foo''" "''\<newline>''"]
    by simp
  ultimately show ?thesis by blast
qed

text \<open>
  Claim C10.  A first line that is exactly the prefix \<^verbatim>\<open>device_type=\<close>, with nothing or one line
  feed after it, is accepted: \<open>GetDeviceType\<close> succeeds with the empty string, whatever the
  configuration and whatever else the file system holds.
\<close>

theorem GetDeviceType_empty_value:
  "GetDeviceType (fs(device_type_fpath cfg := File ''device_type='')) cfg = Inr []
   \<and> GetDeviceType (fs(device_type_fpath cfg := File ''device_type=\<newline>'')) cfg = Inr []"
  by (simp add: GetDeviceType_def parse_device_type_def getline_def)

section \<open>Properties of the pattern filter and of the merge\<close>

lemma set_matching_keys_aux:
  "set (fold (\<lambda>provide keys. if compiled (fst provide) then List.insert (fst provide) keys else keys) m acc)
     = set acc \<union> {k \<in> fst ` set m. compiled k}"
  by (induction m arbitrary: acc) auto

lemma set_matching_keys: "set (matching_keys compiled m) = {k \<in> fst ` set m. compiled k}"
  by (simp add: matching_keys_def set_matching_keys_aux)

lemma fold_delete_filter:
  "fold AList.delete keys m = filter (\<lambda>provide. fst provide \<notin> set keys) m"
  by (induction keys arbitrary: m) (auto simp: AList.delete_eq case_prod_unfold intro: filter_cong)

lemma erase_matching_keys:
  "erase_keys (matching_keys compiled m) m = filter (\<lambda>provide. \<not> compiled (fst provide)) m"
  unfolding erase_keys_def fold_delete_filter set_matching_keys
  by (rule filter_cong) auto

lemma clear_loop_spec:
  "clear_loop rx clears m =
     (if all_compile rx clears then Inr (foldl (\<lambda>m pattern. pattern_filter rx pattern m) m clears)
      else Inl AssertFailed)"
proof (induction clears arbitrary: m)
  case Nil
  show ?case by (simp add: all_compile_def)
next
  case (Cons p ps)
  show ?case
  proof (cases "rx (escaped p)")
    case None
    then show ?thesis by (simp add: all_compile_def)
  next
    case (Some compiled)
    then have "pattern_filter rx p m = erase_keys (matching_keys compiled m) m"
      by (simp add: erase_matching_keys pattern_filter_def pattern_matches_def)
    with Some Cons show ?thesis by (simp add: all_compile_def)
  qed
qed

lemma map_of_add_provides:
  "distinct (map fst n) \<Longrightarrow> map_of (add_provides n m) = map_of m ++ map_of n"
  unfolding add_provides_def
proof (induction n arbitrary: m)
  case Nil
  show ?case by simp
next
  case (Cons p n)
  obtain k v where p: "p = (k, v)" by (cases p)
  have "k \<notin> dom (map_of n)" using Cons.prems p by (simp add: dom_map_of_conv_image_fst)
  then have swap: "(map_of m)(k \<mapsto> v) ++ map_of n = (map_of m ++ map_of n)(k \<mapsto> v)"
    by (rule map_add_upd_left)
  have "map_of (fold (\<lambda>provide. AList.update (fst provide) (snd provide)) (p # n) m)
          = map_of (AList.update k v m) ++ map_of n"
    using Cons.IH [of "AList.update k v m"] Cons.prems p by simp
  also have "\<dots> = (map_of m ++ map_of n)(k \<mapsto> v)"
    using swap by (simp only: update_conv')
  also have "\<dots> = map_of m ++ map_of (p # n)"
    by (simp only: p map_of.simps fst_conv snd_conv map_add_upd)
  finally show ?case .
qed

lemma foldl_pattern_filter:
  "foldl (\<lambda>m pattern. pattern_filter rx pattern m) m clears
     = filter (\<lambda>provide. \<forall>pattern \<in> set clears. \<not> pattern_matches rx pattern (fst provide)) m"
  by (induction clears arbitrary: m) (auto simp: pattern_filter_def intro: filter_cong)

lemma map_of_set_reserved:
  "map_of (set_reserved name grp m) k =
     (if k = ''artifact_group'' \<and> grp \<noteq> [] then Some grp
      else if k = ''artifact_name'' \<and> name \<noteq> [] then Some name
      else map_of m k)"
  by (simp add: set_reserved_def update_conv')

lemma FilterProvides_spec:
  "FilterProvides rx n clears m =
     (if all_compile rx clears
      then Inr (add_provides n (foldl (\<lambda>m pattern. pattern_filter rx pattern m) m clears))
      else Inl AssertFailed)"
  by (simp add: FilterProvides_def clear_loop_spec)

lemma add_provides_Nil: "add_provides [] m = m"
  by (simp add: add_provides_def)

text \<open>
  The shape of the merge, for every engine.  From the existing provides \<open>E\<close>, the optional new
  provides \<open>N\<close> and the optional clear patterns \<open>C\<close> it gives: the empty map when both are
  absent; \<open>E\<close> with the keys removed that some pattern of \<open>C\<close> matches, the patterns being
  applied in order, when only \<open>C\<close> is given; \<open>N\<close> itself when only \<open>N\<close> is given; the filtered
  \<open>E\<close> overlaid with \<open>N\<close>, the values of \<open>N\<close> winning, when both are given.  Afterwards an
  argument \<open>artifact_name\<close> or \<open>artifact_group\<close> that is not empty replaces the value of its
  reserved key.  What a pattern matches is decided by the engine on the text that \<open>escaped\<close>
  builds, and the filtered result exists when the text of every pattern compiles; otherwise
  the merge ends with the assertion error of line 265.
\<close>

lemma merge_provides_cases:
  "merge_provides rx E None None = Inr []
   \<and> merge_provides rx E None (Some C) =
       (if all_compile rx C
        then Inr (foldl (\<lambda>m pattern. pattern_filter rx pattern m) E C)
        else Inl AssertFailed)
   \<and> (\<forall>M. merge_provides rx E None (Some C) = Inr M \<longrightarrow> set M \<subseteq> set E)
   \<and> merge_provides rx E (Some N) None = Inr N
   \<and> (all_compile rx C \<and> distinct (map fst N) \<longrightarrow>
        (\<exists>M. merge_provides rx E (Some N) (Some C) = Inr M
           \<and> map_of M = map_of (foldl (\<lambda>m pattern. pattern_filter rx pattern m) E C) ++ map_of N))
   \<and> (\<not> all_compile rx C \<longrightarrow> merge_provides rx E (Some N) (Some C) = Inl AssertFailed)
   \<and> (\<forall>M k. map_of (set_reserved artifact_name artifact_group M) k =
        (if k = ''artifact_name'' \<and> artifact_name \<noteq> [] then Some artifact_name
         else if k = ''artifact_group'' \<and> artifact_group \<noteq> [] then Some artifact_group
         else map_of M k))"
proof (intro conjI allI impI)
  show "merge_provides rx E None None = Inr []"
    by (simp add: merge_provides_def)
  show only_clears: "merge_provides rx E None (Some C) =
       (if all_compile rx C
        then Inr (foldl (\<lambda>m pattern. pattern_filter rx pattern m) E C)
        else Inl AssertFailed)"
    by (simp add: merge_provides_def FilterProvides_spec add_provides_Nil)
  show "set M \<subseteq> set E" if "merge_provides rx E None (Some C) = Inr M" for M
    using that unfolding only_clears foldl_pattern_filter
    by (auto split: if_splits)
  show "merge_provides rx E (Some N) None = Inr N"
    by (simp add: merge_provides_def)
  show "\<exists>M. merge_provides rx E (Some N) (Some C) = Inr M
           \<and> map_of M = map_of (foldl (\<lambda>m pattern. pattern_filter rx pattern m) E C) ++ map_of N"
    if "all_compile rx C \<and> distinct (map fst N)"
    using that by (simp add: merge_provides_def FilterProvides_spec map_of_add_provides)
  show "merge_provides rx E (Some N) (Some C) = Inl AssertFailed" if "\<not> all_compile rx C"
    using that by (simp add: merge_provides_def FilterProvides_spec)
  show "map_of (set_reserved artifact_name artifact_group M) k =
        (if k = ''artifact_name'' \<and> artifact_name \<noteq> [] then Some artifact_name
         else if k = ''artifact_group'' \<and> artifact_group \<noteq> [] then Some artifact_group
         else map_of M k)" for M k
    by (simp add: map_of_set_reserved)
qed

lemma merge_provides_cases_example:
  "merge_provides (posix_basic (\<lambda>text. None))
       [(''artifact_name'', ''old''), (''a1'', ''1''), (''b'', ''2'')] None None
     = Inr []
   \<and> merge_provides (posix_basic (\<lambda>text. None))
       [(''artifact_name'', ''old''), (''a1'', ''1''), (''b'', ''2'')] None (Some [''a*'', ''c''])
     = Inr [(''b'', ''2'')]
   \<and> merge_provides (posix_basic (\<lambda>text. None))
       [(''artifact_name'', ''old''), (''a1'', ''1''), (''b'', ''2'')] (Some [(''b'', ''3'')]) None
     = Inr [(''b'', ''3'')]
   \<and> (\<exists>M. merge_provides (posix_basic (\<lambda>text. None))
              [(''artifact_name'', ''old''), (''a1'', ''1''), (''b'', ''2'')]
              (Some [(''b'', ''3'')]) (Some [''a*'', ''c'']) = Inr M
          \<and> map_of M ''b'' = Some ''3'' \<and> map_of M ''a1'' = None)
   \<and> map_of (set_reserved ''new'' [] []) ''artifact_name'' = Some ''new''
   \<and> set [(''b'', ''2'')] \<subseteq> set [(''artifact_name'', ''old''), (''a1'', ''1''), (''b'', ''2'')]
   \<and> merge_provides (posix_basic (\<lambda>text. None))
       [(''artifact_name'', ''old''), (''a1'', ''1''), (''b'', ''2'')]
       (Some [(''b'', ''3'')]) (Some [''(''])
     = Inl AssertFailed"
proof -
  let ?rx = "posix_basic (\<lambda>text. None)"
  let ?E = "[(''artifact_name'', ''old''), (''a1'', ''1''), (''b'', ''2'')]"
  let ?C = "[''a*'', ''c'']"
  let ?N = "[(''b'', ''3'')]"
  note cases = merge_provides_cases [where rx = ?rx and E = ?E and C = ?C and N = ?N
      and artifact_name = "''new''" and artifact_group = "[]"]
  have compile: "all_compile ?rx ?C"
    by (simp add: all_compile_def posix_basic_def meta_characters_def)
  have filtered: "foldl (\<lambda>m pattern. pattern_filter ?rx pattern m) ?E ?C = [(''b'', ''2'')]"
    by (simp add: pattern_filter_def pattern_matches_def posix_basic_def meta_characters_def
        regex_match_def)
  have 1: "merge_provides ?rx ?E None None = Inr []"
    using cases by (rule conjunct1)
  have 2: "merge_provides ?rx ?E None (Some ?C) = Inr [(''b'', ''2'')]"
    using cases [THEN conjunct2, THEN conjunct1] compile filtered by simp
  have 3: "merge_provides ?rx ?E (Some ?N) None = Inr ?N"
    using cases [THEN conjunct2, THEN conjunct2, THEN conjunct2, THEN conjunct1] .
  have "\<exists>M. merge_provides ?rx ?E (Some ?N) (Some ?C) = Inr M
          \<and> map_of M = map_of [(''b'', ''2'')] ++ map_of ?N"
    using cases [THEN conjunct2, THEN conjunct2, THEN conjunct2, THEN conjunct2, THEN conjunct1]
      compile filtered by simp
  then have 4: "\<exists>M. merge_provides ?rx ?E (Some ?N) (Some ?C) = Inr M
          \<and> map_of M ''b'' = Some ''3'' \<and> map_of M ''a1'' = None"
    by auto
  have 5: "map_of (set_reserved ''new'' [] []) ''artifact_name'' = Some ''new''"
    using cases [THEN conjunct2, THEN conjunct2, THEN conjunct2, THEN conjunct2, THEN conjunct2,
        THEN conjunct2, rule_format, of "[]" "''artifact_name''"]
    by simp
  have 6: "set [(''b'', ''2'')] \<subseteq> set ?E"
    using cases [THEN conjunct2, THEN conjunct2, THEN conjunct1, rule_format, OF 2] .
  have "\<not> all_compile ?rx [''('']"
    by (simp add: all_compile_def posix_basic_def meta_characters_def)
  then have 7: "merge_provides ?rx ?E (Some ?N) (Some [''('']) = Inl AssertFailed"
    using merge_provides_cases [where rx = ?rx and E = ?E and C = "[''('']" and N = ?N,
        THEN conjunct2, THEN conjunct2, THEN conjunct2, THEN conjunct2, THEN conjunct2,
        THEN conjunct1]
    by blast
  from 1 2 3 4 5 6 7 show ?thesis by blast
qed

section \<open>Properties of the compatibility matcher\<close>

lemma depends_hold_iff:
  "depends_hold provides ds \<longleftrightarrow> (\<forall>it \<in> set ds. map_of provides (fst it) = Some (snd it))"
  by (induction ds) (auto simp: MapContainsStringKey_def at_def)

text \<open>
  Claim C2, as amended.  For header depends that satisfy their invariant, the matcher reports
  \<open>ValueError\<close> exactly when \<open>provides\<close> has no key \<^verbatim>\<open>artifact_name\<close>; a key that is present
  with an empty value counts as present.  Otherwise it returns a truth value, which is true
  exactly when the device type is in the list of device types, the name of \<open>provides\<close> is in
  the list of names when there is one, \<open>provides\<close> has a group that is in the list of groups
  when there is one, and every key of the type-info depends has the same value in
  \<open>provides\<close>.  No mismatch is reported as an error.
\<close>

theorem ArtifactMatchesContext_result:
  assumes "wf_depends (depends hdr_info)"
  shows "ArtifactMatchesContext provides device_type hdr_info type_info =
     (if map_of provides ''artifact_name'' = None then Inl ValueError
      else Inr (device_type \<in> set (dep_device_type (depends hdr_info))
            \<and> (\<forall>names. dep_artifact_name (depends hdr_info) = Some names
                  \<longrightarrow> (\<exists>name \<in> set names. map_of provides ''artifact_name'' = Some name))
            \<and> (\<forall>groups. dep_artifact_group (depends hdr_info) = Some groups
                  \<longrightarrow> (\<exists>grp \<in> set groups. map_of provides ''artifact_group'' = Some grp))
            \<and> (\<forall>ti_depends. artifact_depends type_info = Some ti_depends
                  \<longrightarrow> (\<forall>it \<in> set ti_depends. map_of provides (fst it) = Some (snd it)))))"
proof (cases "map_of provides ''artifact_name''")
  case None
  then show ?thesis
    by (simp add: ArtifactMatchesContext_def MapContainsStringKey_def)
next
  case (Some name)
  obtain dts names groups where d: "depends hdr_info =
      \<lparr>dep_device_type = dts, dep_artifact_name = names, dep_artifact_group = groups\<rparr>"
    by (cases "depends hdr_info") auto
  have wf: "dts \<noteq> []" "names \<noteq> Some []" "groups \<noteq> Some []"
    using assms by (simp_all add: wf_depends_def d)
  show ?thesis
  proof (cases names)
    case no_names: None
    show ?thesis
    proof (cases groups)
      case None
      with no_names Some d wf show ?thesis
        by (auto simp: ArtifactMatchesContext_def Let_def MapContainsStringKey_def
            VectorContainsString_def at_def depends_hold_iff split: option.splits)
    next
      case (Some gs)
      with no_names \<open>map_of provides ''artifact_name'' = Some name\<close> d wf show ?thesis
        by (auto simp: ArtifactMatchesContext_def Let_def MapContainsStringKey_def
            VectorContainsString_def at_def depends_hold_iff split: option.splits)
    qed
  next
    case some_names: (Some ns)
    show ?thesis
    proof (cases groups)
      case None
      with some_names Some d wf show ?thesis
        by (auto simp: ArtifactMatchesContext_def Let_def MapContainsStringKey_def
            VectorContainsString_def at_def depends_hold_iff split: option.splits)
    next
      case (Some gs)
      with some_names \<open>map_of provides ''artifact_name'' = Some name\<close> d wf show ?thesis
        by (auto simp: ArtifactMatchesContext_def Let_def MapContainsStringKey_def
            VectorContainsString_def at_def depends_hold_iff split: option.splits)
    qed
  qed
qed

theorem ArtifactMatchesContext_result_witness:
  "ArtifactMatchesContext [(''artifact_name'', ''app''), (''artifact_group'', ''g1'')] ''qemu''
      \<lparr>depends = \<lparr>dep_device_type = [''qemu''], dep_artifact_name = None,
                   dep_artifact_group = Some [''g1'', ''g2'']\<rparr>\<rparr>
      \<lparr>artifact_depends = Some [(''rootfs-image.checksum'', ''abc'')]\<rparr> = Inr False
   \<and> ArtifactMatchesContext
      [(''artifact_name'', ''app''), (''artifact_group'', ''g1''), (''rootfs-image.checksum'', ''abc'')]
      ''qemu''
      \<lparr>depends = \<lparr>dep_device_type = [''qemu''], dep_artifact_name = None,
                   dep_artifact_group = Some [''g1'', ''g2'']\<rparr>\<rparr>
      \<lparr>artifact_depends = Some [(''rootfs-image.checksum'', ''abc'')]\<rparr> = Inr True
   \<and> ArtifactMatchesContext [(''artifact_group'', ''g1'')] ''qemu''
      \<lparr>depends = \<lparr>dep_device_type = [''qemu''], dep_artifact_name = None,
                   dep_artifact_group = Some [''g1'', ''g2'']\<rparr>\<rparr>
      \<lparr>artifact_depends = None\<rparr> = Inl ValueError"
proof -
  let ?hdr = "\<lparr>depends = \<lparr>dep_device_type = [''qemu''], dep_artifact_name = None,
                   dep_artifact_group = Some [''g1'', ''g2'']\<rparr>\<rparr>"
  have wf: "wf_depends (depends ?hdr)"
    by (simp add: wf_depends_def)
  show ?thesis
    using ArtifactMatchesContext_result [OF wf,
        of "[(''artifact_name'', ''app''), (''artifact_group'', ''g1'')]" "''qemu''"
           "\<lparr>artifact_depends = Some [(''rootfs-image.checksum'', ''abc'')]\<rparr>"]
      ArtifactMatchesContext_result [OF wf,
        of "[(''artifact_name'', ''app''), (''artifact_group'', ''g1''),
             (''rootfs-image.checksum'', ''abc'')]" "''qemu''"
           "\<lparr>artifact_depends = Some [(''rootfs-image.checksum'', ''abc'')]\<rparr>"]
      ArtifactMatchesContext_result [OF wf,
        of "[(''artifact_group'', ''g1'')]" "''qemu''" "\<lparr>artifact_depends = None\<rparr>"]
    by simp
qed

text \<open>
  The claim as it was stated fails on a name, or a group, that is present and empty: the
  matcher reports no error for the empty name and accepts the empty group that is listed.
\<close>

theorem ArtifactMatchesContext_empty_name_counterexample:
  "ArtifactMatchesContext [(''artifact_name'', [])] ''qemu''
      \<lparr>depends = \<lparr>dep_device_type = [''qemu''], dep_artifact_name = None,
                   dep_artifact_group = None\<rparr>\<rparr>
      \<lparr>artifact_depends = None\<rparr> = Inr True
   \<and> ArtifactMatchesContext [(''artifact_name'', ''app''), (''artifact_group'', [])] ''qemu''
      \<lparr>depends = \<lparr>dep_device_type = [''qemu''], dep_artifact_name = None,
                   dep_artifact_group = Some [[]]\<rparr>\<rparr>
      \<lparr>artifact_depends = None\<rparr> = Inr True"
  by (simp add: ArtifactMatchesContext_def MapContainsStringKey_def VectorContainsString_def
      at_def)

text \<open>
  Why the invariant of the header depends is assumed: on a list that is empty the matcher
  stops at its assertion, which is neither a truth value nor the value error.
\<close>

lemma ArtifactMatchesContext_empty_list:
  "ArtifactMatchesContext [(''artifact_name'', ''app'')] ''qemu''
      \<lparr>depends = \<lparr>dep_device_type = [], dep_artifact_name = None,
                   dep_artifact_group = None\<rparr>\<rparr>
      \<lparr>artifact_depends = None\<rparr> = Inl AssertFailed"
  by (simp add: ArtifactMatchesContext_def MapContainsStringKey_def)

section \<open>Properties of the encoding of the provides\<close>

lemma json_string_plain:
  "plain_key key \<Longrightarrow> json_string (key @ CHR 0x22 # rest) = Some (key, rest)"
  by (induction key) (auto simp: plain_key_def push_def)

lemma hex_digit_hexchar: "d < 16 \<Longrightarrow> hex_digit (hexchar d) = Some d"
  by (auto simp: hex_digit_def hexchar_def Let_def)

lemma control_escape:
  assumes "(of_char ch :: nat) < 0x20"
  shows "hex4 [CHR ''0'', CHR ''0'', hexchar (of_char ch div 16), hexchar (of_char ch mod 16)]
           = Some (of_char ch)"
proof -
  have hi: "hex_digit (hexchar (of_char ch div 16)) = Some (of_char ch div 16)"
    using assms by (intro hex_digit_hexchar) simp
  have lo: "hex_digit (hexchar (of_char ch mod 16)) = Some (of_char ch mod 16)"
    by (intro hex_digit_hexchar) simp
  have zero: "hex_digit (CHR ''0'') = Some 0"
    by (simp add: hex_digit_def)
  show ?thesis
    by (simp add: hi lo zero)
qed

lemma utf8_ascii: "(of_char ch :: nat) < 0x20 \<Longrightarrow> utf8 (of_char ch) = [ch]"
  by (simp add: utf8_def)

lemma json_string_EscapeString:
  "json_string (EscapeString str @ CHR 0x22 # rest) = Some (str, rest)"
proof (induction str)
  case Nil
  show ?case by simp
next
  case (Cons ch str)
  consider (named) "ch \<in> set [CHR 0x22, CHR 0x5C, CHR 0x08, CHR 0x0C, CHR 0x0A, CHR 0x0D, CHR 0x09]"
    | (control) "ch \<notin> set [CHR 0x22, CHR 0x5C, CHR 0x08, CHR 0x0C, CHR 0x0A, CHR 0x0D, CHR 0x09]"
        "(of_char ch :: nat) < 0x20"
    | (other) "ch \<notin> set [CHR 0x22, CHR 0x5C, CHR 0x08, CHR 0x0C, CHR 0x0A, CHR 0x0D, CHR 0x09]"
        "\<not> (of_char ch :: nat) < 0x20"
    by blast
  then show ?case
  proof cases
    case named
    then show ?thesis
      using Cons by (auto simp: push_def unescape_def)
  next
    case control
    then show ?thesis
      using Cons control_escape [OF control(2)] utf8_ascii [OF control(2)]
      by (simp add: push_def)
  next
    case other
    then show ?thesis
      using Cons by (simp add: push_def)
  qed
qed


lemma skip_ws_quote: "skip_ws (CHR 0x22 # s) = CHR 0x22 # s"
  and skip_ws_colon: "skip_ws (CHR '':'' # s) = CHR '':'' # s"
  and skip_ws_comma: "skip_ws (CHR '','' # s) = CHR '','' # s"
  and skip_ws_brace: "skip_ws (CHR ''}'' # s) = CHR ''}'' # s"
  and skip_ws_Nil: "skip_ws [] = []"
  by (simp_all add: skip_ws_def is_ws_def)

lemma provides_entry_plain:
  "unreserved key \<Longrightarrow>
   provides_entry (key, val) =
     CHR 0x22 # key @ CHR 0x22 # CHR '':'' # CHR 0x22 # EscapeString val @ [CHR 0x22, CHR '','']"
  by (simp add: provides_entry_def unreserved_def)

lemma json_members_more:
  assumes "plain_key key"
  shows "json_members (CHR 0x22 # key @ CHR 0x22 # CHR '':'' # CHR 0x22 # EscapeString val
            @ CHR 0x22 # CHR '','' # rest)
         = map_option ((#) (key, val)) (json_members (skip_ws rest))"
  by (subst json_members.simps)
    (simp add: json_string_plain [OF assms] json_string_EscapeString skip_ws_quote skip_ws_colon
      skip_ws_comma)

lemma json_members_last:
  assumes "plain_key key"
  shows "json_members (CHR 0x22 # key @ CHR 0x22 # CHR '':'' # CHR 0x22 # EscapeString val
            @ [CHR 0x22, CHR ''}''])
         = Some [(key, val)]"
  by (subst json_members.simps)
    (simp add: json_string_plain [OF assms] json_string_EscapeString skip_ws_quote skip_ws_colon
      skip_ws_brace skip_ws_Nil)

lemma provides_entry_nonempty: "unreserved (fst it) \<Longrightarrow> provides_entry it \<noteq> []"
  by (simp add: provides_entry_def unreserved_def)

lemma provides_entry_quote:
  "unreserved (fst it) \<Longrightarrow> \<exists>s. provides_entry it = CHR 0x22 # s \<and> s \<noteq> []"
  by (simp add: provides_entry_def unreserved_def)

lemma entries_quote:
  assumes "unreserved (fst it)"
  shows "\<exists>t. butlast (concat (map provides_entry (it # m))) @ ''}'' = CHR 0x22 # t"
proof -
  obtain s where "provides_entry it = CHR 0x22 # s" "s \<noteq> []"
    using provides_entry_quote [OF assms] by blast
  then show ?thesis by simp
qed

lemma json_members_entries:
  assumes "encodable m" "m \<noteq> []"
  shows "json_members (butlast (concat (map provides_entry m)) @ ''}'') = Some m"
  using assms
proof (induction m)
  case Nil
  then show ?case by simp
next
  case (Cons it m)
  obtain key val where it: "it = (key, val)" by (cases it)
  have key: "unreserved key" "plain_key key"
    using Cons.prems it by (simp_all add: encodable_def)
  show ?case
  proof (cases m)
    case Nil
    then show ?thesis
      using json_members_last [OF key(2), of val]
      by (simp add: it provides_entry_plain [OF key(1)] butlast_append)
  next
    case (Cons it' m')
    then have m: "encodable m" "m \<noteq> []"
      using Cons.prems by (simp_all add: encodable_def)
    have it': "unreserved (fst it')" using m(1) Cons by (simp add: encodable_def)
    have ne: "concat (map provides_entry m) \<noteq> []"
      using Cons provides_entry_nonempty [OF it'] by simp
    obtain t where t: "butlast (concat (map provides_entry m)) @ ''}'' = CHR 0x22 # t"
      using entries_quote [OF it'] Cons by blast
    have "json_members (butlast (concat (map provides_entry (it # m))) @ ''}'')
        = json_members (CHR 0x22 # key @ CHR 0x22 # CHR '':'' # CHR 0x22 # EscapeString val
            @ CHR 0x22 # CHR '','' # (butlast (concat (map provides_entry m)) @ ''}''))"
      using ne by (auto simp: it provides_entry_plain [OF key(1)] butlast_append)
    also have "\<dots> = map_option ((#) (key, val))
        (json_members (skip_ws (butlast (concat (map provides_entry m)) @ ''}'')))"
      by (rule json_members_more [OF key(2)])
    also have "\<dots> = Some (it # m)"
      using Cons.IH [OF m] by (simp add: t skip_ws_quote it)
    finally show ?thesis .
  qed
qed

lemma provides_str_encodable:
  assumes "encodable m" "m \<noteq> []"
  shows "provides_str m = CHR ''{'' # butlast (concat (map provides_entry m)) @ ''}''"
proof -
  obtain it m' where m: "m = it # m'" using assms(2) by (cases m) auto
  then have "unreserved (fst it)" using assms(1) by (simp add: encodable_def)
  then have "concat (map provides_entry m) \<noteq> []"
    using provides_entry_nonempty m by simp
  then show ?thesis
    by (simp add: provides_str_def Let_def)
qed

lemma json_object_provides_str:
  assumes "encodable m" "m \<noteq> []"
  shows "json_object (provides_str m) = Inr m"
proof -
  obtain it m' where m: "m = it # m'" using assms(2) by (cases m) auto
  then have "unreserved (fst it)" using assms(1) by (simp add: encodable_def)
  then obtain t where t: "butlast (concat (map provides_entry m)) @ ''}'' = CHR 0x22 # t"
    using entries_quote m by blast
  have "json_members (CHR 0x22 # t) = Some m"
    using json_members_entries [OF assms] t by simp
  then show ?thesis
    by (simp add: provides_str_encodable [OF assms] json_object_def t skip_ws_quote
        skip_ws_def [of "CHR ''{'' # _"] is_ws_def)
qed

lemma provides_str_Nil: "provides_str [] = []"
  by (simp add: provides_str_def)

text \<open>
  The blob of a mapping whose keys are not reserved and need no escaping decodes to the
  mapping, whatever the values are; a mapping without such keys has no blob.
\<close>

lemma provides_str_roundtrip:
  assumes "encodable m"
  shows "(m = [] \<longrightarrow> provides_str m = []) \<and> (m \<noteq> [] \<longrightarrow> json_object (provides_str m) = Inr m)"
  using assms json_object_provides_str provides_str_Nil by blast

section \<open>Properties of the commit\<close>

lemmas commit_defs = CommitArtifactData_def WriteTransaction_def LoadProvides_def ReadString_def
  write_records_def txn_Write_def txn_Remove_def merge_provides_def set_reserved_def
  value_or_empty_def provides_str_def provides_entry_def artifact_name_key_def
  artifact_group_key_def artifact_provides_key_def json_object_def skip_ws_def is_ws_def
  push_def unescape_def FilterProvides_def add_provides_def Let_def json_members.simps

text \<open>
  Claim C3.  A call of \<open>CommitArtifactData\<close> that returns an error leaves the store as it was
  before the call, whatever the starting store, the arguments and the failing step; so the
  three records of the provides are unchanged and no part of the new records can be seen.
  A continuation that returns an error makes the call return an error.

  Every step that fails makes the call return the error of that step, with the store of
  before the call:
  \<^item> \<open>LoadProvides\<close> fails, on a read of the store or on a blob that does not parse;
  \<^item> the merge fails, which is the assertion of \<open>FilterProvides\<close> on a clear pattern whose
    expression does not compile;
  \<^item> the merged mapping has no name or an empty one (the assertion of line 355);
  \<^item> the write of the name fails;
  \<^item> the write of the group, or its removal when the group is empty, fails after the name
    has been written;
  \<^item> the write of the blob fails after the name and the group have been written;
  \<^item> the continuation returns an error on the transaction that it is given, the one that
    holds the three new records.
\<close>

theorem CommitArtifactData_rollback:
  "(fst (CommitArtifactData rx fault db artifact_name artifact_group new_provides
           clears_provides txn_func) \<noteq> None
     \<longrightarrow> snd (CommitArtifactData rx fault db artifact_name artifact_group new_provides
           clears_provides txn_func) = db)
   \<and> ((\<forall>txn. fst (txn_func txn) \<noteq> None)
     \<longrightarrow> fst (CommitArtifactData rx fault db artifact_name artifact_group new_provides
           clears_provides txn_func) \<noteq> None)
   \<and> (LoadProvides fault db = Inl err
     \<longrightarrow> CommitArtifactData rx fault db artifact_name artifact_group new_provides
           clears_provides txn_func = (Some err, db))
   \<and> (LoadProvides fault db = Inr existing
        \<and> merge_provides rx existing new_provides clears_provides = Inl err
     \<longrightarrow> CommitArtifactData rx fault db artifact_name artifact_group new_provides
           clears_provides txn_func = (Some err, db))
   \<and> (LoadProvides fault db = Inr existing \<and> clears_provides = Some clears
        \<and> pattern \<in> set clears \<and> rx (escaped pattern) = None
     \<longrightarrow> CommitArtifactData rx fault db artifact_name artifact_group new_provides
           clears_provides txn_func = (Some AssertFailed, db))
   \<and> (LoadProvides fault db = Inr existing
        \<and> merge_provides rx existing new_provides clears_provides = Inr merged
        \<and> modified = set_reserved artifact_name artifact_group merged
        \<and> name = value_or_empty modified ''artifact_name''
        \<and> grp = value_or_empty modified ''artifact_group''
        \<and> blob = provides_str modified
     \<longrightarrow> (name = []
          \<longrightarrow> CommitArtifactData rx fault db artifact_name artifact_group new_provides
                clears_provides txn_func = (Some AssertFailed, db))
       \<and> (name \<noteq> [] \<and> fault (Write artifact_name_key name)
          \<longrightarrow> CommitArtifactData rx fault db artifact_name artifact_group new_provides
                clears_provides txn_func = (Some DbError, db))
       \<and> (name \<noteq> [] \<and> \<not> fault (Write artifact_name_key name)
            \<and> (if grp \<noteq> [] then fault (Write artifact_group_key grp)
                else fault (Remove artifact_group_key))
          \<longrightarrow> CommitArtifactData rx fault db artifact_name artifact_group new_provides
                clears_provides txn_func = (Some DbError, db))
       \<and> (name \<noteq> [] \<and> \<not> fault (Write artifact_name_key name)
            \<and> \<not> (if grp \<noteq> [] then fault (Write artifact_group_key grp)
                  else fault (Remove artifact_group_key))
            \<and> blob \<noteq> [] \<and> fault (Write artifact_provides_key blob)
          \<longrightarrow> CommitArtifactData rx fault db artifact_name artifact_group new_provides
                clears_provides txn_func = (Some DbError, db))
       \<and> (name \<noteq> [] \<and> \<not> fault (Write artifact_name_key name)
            \<and> \<not> (if grp \<noteq> [] then fault (Write artifact_group_key grp)
                  else fault (Remove artifact_group_key))
            \<and> (blob \<noteq> [] \<longrightarrow> \<not> fault (Write artifact_provides_key blob))
            \<and> txn_func
                 (db(artifact_name_key \<mapsto> name,
                     artifact_group_key := (if grp = [] then None else Some grp),
                     artifact_provides_key :=
                       (if blob = [] then db artifact_provides_key else Some blob)))
               = (Some err, txn')
          \<longrightarrow> CommitArtifactData rx fault db artifact_name artifact_group new_provides
                clears_provides txn_func = (Some err, db)))"
  (is "?rollback \<and> ?cont_all \<and> ?load \<and> ?merge \<and> ?regex \<and> ?steps")
proof (intro conjI)
  show ?rollback
    by (auto simp: CommitArtifactData_def WriteTransaction_def split: prod.splits option.splits)
  show ?cont_all
  proof
    assume f: "\<forall>txn. fst (txn_func txn) \<noteq> None"
    have wr: "\<exists>e t'. write_records fault m txn_func t = (Some e, t')" for m t
    proof -
      have "fst (write_records fault m txn_func t) \<noteq> None"
        using f
        by (auto simp: write_records_def Let_def txn_Write_def txn_Remove_def
            split: prod.splits option.splits if_splits)
      then show ?thesis
        by (cases "write_records fault m txn_func t") auto
    qed
    show "fst (CommitArtifactData rx fault db artifact_name artifact_group new_provides
           clears_provides txn_func) \<noteq> None"
    proof (cases "LoadProvides fault db")
      case (Inl e)
      then show ?thesis by (simp add: CommitArtifactData_def WriteTransaction_def)
    next
      case loaded: (Inr ex)
      show ?thesis
      proof (cases "merge_provides rx ex new_provides clears_provides")
        case (Inl e)
        with loaded show ?thesis by (simp add: CommitArtifactData_def WriteTransaction_def)
      next
        case (Inr mg)
        obtain e t' where "write_records fault
            (set_reserved artifact_name artifact_group mg) txn_func db = (Some e, t')"
          using wr by blast
        with loaded Inr show ?thesis
          by (simp add: CommitArtifactData_def WriteTransaction_def)
      qed
    qed
  qed
  show ?load
    by (simp add: CommitArtifactData_def WriteTransaction_def)
  show ?merge
    by (simp add: CommitArtifactData_def WriteTransaction_def)
  show ?regex
  proof
    assume a: "LoadProvides fault db = Inr existing \<and> clears_provides = Some clears
        \<and> pattern \<in> set clears \<and> rx (escaped pattern) = None"
    then have "\<not> all_compile rx clears"
      by (auto simp: all_compile_def list_all_iff)
    then have "FilterProvides rx n clears existing = Inl AssertFailed" for n
      by (simp add: FilterProvides_def clear_loop_spec)
    then have "merge_provides rx existing new_provides clears_provides = Inl AssertFailed"
      using a by (simp add: merge_provides_def)
    with a show "CommitArtifactData rx fault db artifact_name artifact_group new_provides
           clears_provides txn_func = (Some AssertFailed, db)"
      by (simp add: CommitArtifactData_def WriteTransaction_def)
  qed
  show ?steps
  proof (intro impI, elim conjE)
    assume loaded: "LoadProvides fault db = Inr existing"
      and merged: "merge_provides rx existing new_provides clears_provides = Inr merged"
      and m: "modified = set_reserved artifact_name artifact_group merged"
      and n: "name = value_or_empty modified ''artifact_name''"
      and g: "grp = value_or_empty modified ''artifact_group''"
      and b: "blob = provides_str modified"
    have commit: "CommitArtifactData rx fault db artifact_name artifact_group new_provides
           clears_provides txn_func
         = WriteTransaction db (write_records fault modified txn_func)"
      using loaded merged m by (simp add: CommitArtifactData_def WriteTransaction_def)
    show "(name = []
          \<longrightarrow> CommitArtifactData rx fault db artifact_name artifact_group new_provides
                clears_provides txn_func = (Some AssertFailed, db))
       \<and> (name \<noteq> [] \<and> fault (Write artifact_name_key name)
          \<longrightarrow> CommitArtifactData rx fault db artifact_name artifact_group new_provides
                clears_provides txn_func = (Some DbError, db))
       \<and> (name \<noteq> [] \<and> \<not> fault (Write artifact_name_key name)
            \<and> (if grp \<noteq> [] then fault (Write artifact_group_key grp)
                else fault (Remove artifact_group_key))
          \<longrightarrow> CommitArtifactData rx fault db artifact_name artifact_group new_provides
                clears_provides txn_func = (Some DbError, db))
       \<and> (name \<noteq> [] \<and> \<not> fault (Write artifact_name_key name)
            \<and> \<not> (if grp \<noteq> [] then fault (Write artifact_group_key grp)
                  else fault (Remove artifact_group_key))
            \<and> blob \<noteq> [] \<and> fault (Write artifact_provides_key blob)
          \<longrightarrow> CommitArtifactData rx fault db artifact_name artifact_group new_provides
                clears_provides txn_func = (Some DbError, db))
       \<and> (name \<noteq> [] \<and> \<not> fault (Write artifact_name_key name)
            \<and> \<not> (if grp \<noteq> [] then fault (Write artifact_group_key grp)
                  else fault (Remove artifact_group_key))
            \<and> (blob \<noteq> [] \<longrightarrow> \<not> fault (Write artifact_provides_key blob))
            \<and> txn_func
                 (db(artifact_name_key \<mapsto> name,
                     artifact_group_key := (if grp = [] then None else Some grp),
                     artifact_provides_key :=
                       (if blob = [] then db artifact_provides_key else Some blob)))
               = (Some err, txn')
          \<longrightarrow> CommitArtifactData rx fault db artifact_name artifact_group new_provides
                clears_provides txn_func = (Some err, db))"
      unfolding commit
    proof (intro conjI impI)
      show "WriteTransaction db (write_records fault modified txn_func) = (Some AssertFailed, db)"
        if "name = []"
        using that n by (simp add: WriteTransaction_def write_records_def Let_def)
      show "WriteTransaction db (write_records fault modified txn_func) = (Some DbError, db)"
        if "name \<noteq> [] \<and> fault (Write artifact_name_key name)"
        using that n
        by (simp add: WriteTransaction_def write_records_def Let_def txn_Write_def)
      show "WriteTransaction db (write_records fault modified txn_func) = (Some DbError, db)"
        if "name \<noteq> [] \<and> \<not> fault (Write artifact_name_key name)
            \<and> (if grp \<noteq> [] then fault (Write artifact_group_key grp)
                else fault (Remove artifact_group_key))"
        using that n g
        by (auto simp: WriteTransaction_def write_records_def Let_def txn_Write_def
            txn_Remove_def split: if_splits)
      show "WriteTransaction db (write_records fault modified txn_func) = (Some DbError, db)"
        if "name \<noteq> [] \<and> \<not> fault (Write artifact_name_key name)
            \<and> \<not> (if grp \<noteq> [] then fault (Write artifact_group_key grp)
                  else fault (Remove artifact_group_key))
            \<and> blob \<noteq> [] \<and> fault (Write artifact_provides_key blob)"
        using that n g b
        by (auto simp: WriteTransaction_def write_records_def Let_def txn_Write_def
            txn_Remove_def split: if_splits)
      show "WriteTransaction db (write_records fault modified txn_func) = (Some err, db)"
        if "name \<noteq> [] \<and> \<not> fault (Write artifact_name_key name)
            \<and> \<not> (if grp \<noteq> [] then fault (Write artifact_group_key grp)
                  else fault (Remove artifact_group_key))
            \<and> (blob \<noteq> [] \<longrightarrow> \<not> fault (Write artifact_provides_key blob))
            \<and> txn_func
                 (db(artifact_name_key \<mapsto> name,
                     artifact_group_key := (if grp = [] then None else Some grp),
                     artifact_provides_key :=
                       (if blob = [] then db artifact_provides_key else Some blob)))
               = (Some err, txn')"
      proof -
        have keys: "artifact_name_key \<noteq> artifact_group_key"
          "artifact_name_key \<noteq> artifact_provides_key"
          "artifact_group_key \<noteq> artifact_provides_key"
          by (simp_all add: artifact_name_key_def artifact_group_key_def
              artifact_provides_key_def)
        have same: "(db(artifact_name_key \<mapsto> name, artifact_group_key := None))
                      (artifact_provides_key := db artifact_provides_key)
                    = db(artifact_name_key \<mapsto> name, artifact_group_key := None)"
          "(db(artifact_name_key \<mapsto> name, artifact_group_key \<mapsto> grp))
                      (artifact_provides_key := db artifact_provides_key)
                    = db(artifact_name_key \<mapsto> name, artifact_group_key \<mapsto> grp)"
          using keys by (auto simp: fun_eq_iff)
        show ?thesis
          using that n g b same
          by (auto simp: WriteTransaction_def write_records_def Let_def txn_Write_def
              txn_Remove_def split: if_splits)
      qed
    qed
  qed
qed

text \<open>
  Instances, on a store that holds the name \<^verbatim>\<open>old\<close> and a blob with the key \<^verbatim>\<open>a\<close>.  The
  continuation writes a record of its own and then fails: inside the transaction the new
  name had been written before the continuation ran, and after the call the store is the
  one from before.  The stored blob lacks its closing brace: the call returns the error of
  the parser.  A clear pattern does not compile: the call returns the assertion error.
  The store is empty and no name is given: the call returns the assertion error.  The
  write of the name, the removal of the group and the write of the blob fail in turn: the
  call returns the error of the store.  The continuation fails only on a transaction that
  holds the new name: the call returns its error.  In every case the store is the one from
  before the call.
\<close>

theorem CommitArtifactData_rollback_witness:
  "fst (CommitArtifactData (\<lambda>s. None) (\<lambda>x. False)
          [''artifact-name'' \<mapsto> ''old'', ''artifact-provides'' \<mapsto> ''{\"a\":\"b\"}'']
          ''new'' ''g'' (Some [(''k'', ''v'')]) (Some [])
          (\<lambda>txn. (Some (TxnError 1), txn(''state'' \<mapsto> ''x'')))) = Some (TxnError 1)
   \<and> snd (CommitArtifactData (\<lambda>s. None) (\<lambda>x. False)
          [''artifact-name'' \<mapsto> ''old'', ''artifact-provides'' \<mapsto> ''{\"a\":\"b\"}'']
          ''new'' ''g'' (Some [(''k'', ''v'')]) (Some [])
          (\<lambda>txn. (Some (TxnError 1), txn(''state'' \<mapsto> ''x''))))
       = [''artifact-name'' \<mapsto> ''old'', ''artifact-provides'' \<mapsto> ''{\"a\":\"b\"}'']
   \<and> snd (write_records (\<lambda>x. False)
          [(''artifact_name'', ''new''), (''a'', ''b''), (''k'', ''v''), (''artifact_group'', ''g'')]
          (\<lambda>txn. (Some (TxnError 1), txn(''state'' \<mapsto> ''x'')))
          [''artifact-name'' \<mapsto> ''old'', ''artifact-provides'' \<mapsto> ''{\"a\":\"b\"}''])
        ''artifact-name'' = Some ''new''
   \<and> CommitArtifactData (\<lambda>s. None) (\<lambda>x. False)
          [''artifact-name'' \<mapsto> ''old'', ''artifact-provides'' \<mapsto> ''{\"a\":\"b\"'']
          ''new'' ''g'' (Some [(''k'', ''v'')]) (Some []) (\<lambda>txn. (None, txn))
       = (Some JsonError,
          [''artifact-name'' \<mapsto> ''old'', ''artifact-provides'' \<mapsto> ''{\"a\":\"b\"''])
   \<and> CommitArtifactData (\<lambda>s. None) (\<lambda>x. False)
          [''artifact-name'' \<mapsto> ''old'', ''artifact-provides'' \<mapsto> ''{\"a\":\"b\"}'']
          ''new'' ''g'' (Some [(''k'', ''v'')]) (Some [''a'']) (\<lambda>txn. (None, txn))
       = (Some AssertFailed,
          [''artifact-name'' \<mapsto> ''old'', ''artifact-provides'' \<mapsto> ''{\"a\":\"b\"}''])
   \<and> CommitArtifactData (\<lambda>s. None) (\<lambda>x. False) Map.empty
          [] [] None None (\<lambda>txn. (None, txn))
       = (Some AssertFailed, Map.empty)
   \<and> CommitArtifactData (\<lambda>s. None) (\<lambda>op. op = Write ''artifact-name'' ''new'')
          [''artifact-name'' \<mapsto> ''old'', ''artifact-provides'' \<mapsto> ''{\"a\":\"b\"}'']
          ''new'' ''g'' (Some [(''k'', ''v'')]) (Some []) (\<lambda>txn. (None, txn))
       = (Some DbError,
          [''artifact-name'' \<mapsto> ''old'', ''artifact-provides'' \<mapsto> ''{\"a\":\"b\"}''])
   \<and> CommitArtifactData (\<lambda>s. None) (\<lambda>op. op = Remove ''artifact-group'')
          [''artifact-name'' \<mapsto> ''old'', ''artifact-provides'' \<mapsto> ''{\"a\":\"b\"}'']
          ''new'' [] (Some [(''k'', ''v'')]) (Some []) (\<lambda>txn. (None, txn))
       = (Some DbError,
          [''artifact-name'' \<mapsto> ''old'', ''artifact-provides'' \<mapsto> ''{\"a\":\"b\"}''])
   \<and> CommitArtifactData (\<lambda>s. None)
          (\<lambda>op. case op of Write key val \<Rightarrow> key = ''artifact-provides'' | _ \<Rightarrow> False)
          [''artifact-name'' \<mapsto> ''old'', ''artifact-provides'' \<mapsto> ''{\"a\":\"b\"}'']
          ''new'' ''g'' (Some [(''k'', ''v'')]) (Some []) (\<lambda>txn. (None, txn))
       = (Some DbError,
          [''artifact-name'' \<mapsto> ''old'', ''artifact-provides'' \<mapsto> ''{\"a\":\"b\"}''])
   \<and> CommitArtifactData (\<lambda>s. None) (\<lambda>x. False)
          [''artifact-name'' \<mapsto> ''old'', ''artifact-provides'' \<mapsto> ''{\"a\":\"b\"}'']
          ''new'' ''g'' (Some [(''k'', ''v'')]) (Some [])
          (\<lambda>txn. if txn ''artifact-name'' = Some ''new''
                  then (Some (TxnError 2), txn) else (None, txn))
       = (Some (TxnError 2),
          [''artifact-name'' \<mapsto> ''old'', ''artifact-provides'' \<mapsto> ''{\"a\":\"b\"}''])"
proof -
  let ?db = "[''artifact-name'' \<mapsto> ''old'', ''artifact-provides'' \<mapsto> ''{\"a\":\"b\"}'']"
  let ?r = "CommitArtifactData (\<lambda>s. None) (\<lambda>x. False) ?db
          ''new'' ''g'' (Some [(''k'', ''v'')]) (Some [])
          (\<lambda>txn. (Some (TxnError 1), txn(''state'' \<mapsto> ''x'')))"
  have failing: "\<forall>txn. fst ((\<lambda>txn. (Some (TxnError 1), txn(''state'' \<mapsto> ''x''))) txn) \<noteq> None"
    by simp
  have err: "fst ?r \<noteq> None"
    by (rule CommitArtifactData_rollback
        [where txn_func = "\<lambda>txn. (Some (TxnError 1), txn(''state'' \<mapsto> ''x''))",
          THEN conjunct2, THEN conjunct1, THEN mp, OF failing])
  have w2: "snd ?r = ?db"
    by (rule CommitArtifactData_rollback [THEN conjunct1, THEN mp, OF err])
  have w1: "fst ?r = Some (TxnError 1)"
    by (simp add: commit_defs)
  have w3: "snd (write_records (\<lambda>x. False)
          [(''artifact_name'', ''new''), (''a'', ''b''), (''k'', ''v''), (''artifact_group'', ''g'')]
          (\<lambda>txn. (Some (TxnError 1), txn(''state'' \<mapsto> ''x''))) ?db)
        ''artifact-name'' = Some ''new''"
    by (simp add: commit_defs)
  have corrupt: "LoadProvides (\<lambda>x. False)
          [''artifact-name'' \<mapsto> ''old'', ''artifact-provides'' \<mapsto> ''{\"a\":\"b\"'']
        = Inl JsonError"
    by (simp add: commit_defs)
  have w4: "CommitArtifactData (\<lambda>s. None) (\<lambda>x. False)
          [''artifact-name'' \<mapsto> ''old'', ''artifact-provides'' \<mapsto> ''{\"a\":\"b\"'']
          ''new'' ''g'' (Some [(''k'', ''v'')]) (Some []) (\<lambda>txn. (None, txn))
       = (Some JsonError,
          [''artifact-name'' \<mapsto> ''old'', ''artifact-provides'' \<mapsto> ''{\"a\":\"b\"''])"
    by (rule CommitArtifactData_rollback
        [THEN conjunct2, THEN conjunct2, THEN conjunct1, THEN mp, OF corrupt])
  have loaded: "LoadProvides (\<lambda>x. False) ?db = Inr [(''artifact_name'', ''old''), (''a'', ''b'')]"
    by (simp add: commit_defs)
  have pattern: "LoadProvides (\<lambda>x. False) ?db = Inr [(''artifact_name'', ''old''), (''a'', ''b'')]
        \<and> Some [''a''] = Some [''a''] \<and> ''a'' \<in> set [''a'']
        \<and> (\<lambda>s. None :: (string \<Rightarrow> bool) option) (escaped ''a'') = None"
    using loaded by simp
  have w5: "CommitArtifactData (\<lambda>s. None) (\<lambda>x. False) ?db
          ''new'' ''g'' (Some [(''k'', ''v'')]) (Some [''a'']) (\<lambda>txn. (None, txn))
       = (Some AssertFailed, ?db)"
    by (rule CommitArtifactData_rollback
        [where rx = "\<lambda>s. None",
          THEN conjunct2, THEN conjunct2, THEN conjunct2, THEN conjunct2, THEN conjunct1,
          THEN mp, OF pattern])
  have nameless: "LoadProvides (\<lambda>x. False) Map.empty = Inr []
        \<and> merge_provides (\<lambda>s. None) [] None None = Inr []
        \<and> [] = set_reserved [] [] []
        \<and> [] = value_or_empty [] ''artifact_name''
        \<and> [] = value_or_empty [] ''artifact_group''
        \<and> [] = provides_str []"
    by (simp add: commit_defs)
  have w6: "CommitArtifactData (\<lambda>s. None) (\<lambda>x. False) Map.empty
          [] [] None None (\<lambda>txn. (None, txn))
       = (Some AssertFailed, Map.empty)"
    using CommitArtifactData_rollback
        [where rx = "\<lambda>s. None" and fault = "\<lambda>x. False" and txn_func = "\<lambda>txn. (None, txn)",
          THEN conjunct2, THEN conjunct2, THEN conjunct2, THEN conjunct2, THEN conjunct2,
          THEN mp, OF nameless, THEN conjunct1]
    by simp
  have steps: "LoadProvides fault ?db = Inr [(''artifact_name'', ''old''), (''a'', ''b'')]
        \<and> merge_provides (\<lambda>s. None) [(''artifact_name'', ''old''), (''a'', ''b'')]
             (Some [(''k'', ''v'')]) (Some [])
           = Inr [(''artifact_name'', ''old''), (''a'', ''b''), (''k'', ''v'')]
        \<and> [(''artifact_name'', ''new''), (''a'', ''b''), (''k'', ''v''), (''artifact_group'', ''g'')]
           = set_reserved ''new'' ''g'' [(''artifact_name'', ''old''), (''a'', ''b''), (''k'', ''v'')]
        \<and> ''new'' = value_or_empty
             [(''artifact_name'', ''new''), (''a'', ''b''), (''k'', ''v''), (''artifact_group'', ''g'')]
             ''artifact_name''
        \<and> ''g'' = value_or_empty
             [(''artifact_name'', ''new''), (''a'', ''b''), (''k'', ''v''), (''artifact_group'', ''g'')]
             ''artifact_group''
        \<and> ''{\"a\":\"b\",\"k\":\"v\"}'' = provides_str
             [(''artifact_name'', ''new''), (''a'', ''b''), (''k'', ''v''), (''artifact_group'', ''g'')]"
    if "\<And>key. \<not> fault (Read key)" for fault
    using that by (simp add: commit_defs)
  have steps_nogroup:
       "LoadProvides fault ?db = Inr [(''artifact_name'', ''old''), (''a'', ''b'')]
        \<and> merge_provides (\<lambda>s. None) [(''artifact_name'', ''old''), (''a'', ''b'')]
             (Some [(''k'', ''v'')]) (Some [])
           = Inr [(''artifact_name'', ''old''), (''a'', ''b''), (''k'', ''v'')]
        \<and> [(''artifact_name'', ''new''), (''a'', ''b''), (''k'', ''v'')]
           = set_reserved ''new'' [] [(''artifact_name'', ''old''), (''a'', ''b''), (''k'', ''v'')]
        \<and> ''new'' = value_or_empty
             [(''artifact_name'', ''new''), (''a'', ''b''), (''k'', ''v'')] ''artifact_name''
        \<and> [] = value_or_empty
             [(''artifact_name'', ''new''), (''a'', ''b''), (''k'', ''v'')] ''artifact_group''
        \<and> ''{\"a\":\"b\",\"k\":\"v\"}'' = provides_str
             [(''artifact_name'', ''new''), (''a'', ''b''), (''k'', ''v'')]"
    if "\<And>key. \<not> fault (Read key)" for fault
    using that by (simp add: commit_defs)
  have w7: "CommitArtifactData (\<lambda>s. None) (\<lambda>op. op = Write ''artifact-name'' ''new'') ?db
          ''new'' ''g'' (Some [(''k'', ''v'')]) (Some []) (\<lambda>txn. (None, txn))
       = (Some DbError, ?db)"
    using CommitArtifactData_rollback
        [where rx = "\<lambda>s. None" and fault = "\<lambda>op. op = Write ''artifact-name'' ''new''"
           and txn_func = "\<lambda>txn. (None, txn)",
          THEN conjunct2, THEN conjunct2, THEN conjunct2, THEN conjunct2, THEN conjunct2,
          THEN mp, OF steps, THEN conjunct2, THEN conjunct1]
    by (simp add: artifact_name_key_def)
  have w8: "CommitArtifactData (\<lambda>s. None) (\<lambda>op. op = Remove ''artifact-group'') ?db
          ''new'' [] (Some [(''k'', ''v'')]) (Some []) (\<lambda>txn. (None, txn))
       = (Some DbError, ?db)"
    using CommitArtifactData_rollback
        [where rx = "\<lambda>s. None" and fault = "\<lambda>op. op = Remove ''artifact-group''"
           and txn_func = "\<lambda>txn. (None, txn)",
          THEN conjunct2, THEN conjunct2, THEN conjunct2, THEN conjunct2, THEN conjunct2,
          THEN mp, OF steps_nogroup, THEN conjunct2, THEN conjunct2, THEN conjunct1]
    by (simp add: artifact_name_key_def artifact_group_key_def)
  have w9: "CommitArtifactData (\<lambda>s. None)
          (\<lambda>op. case op of Write key val \<Rightarrow> key = ''artifact-provides'' | _ \<Rightarrow> False) ?db
          ''new'' ''g'' (Some [(''k'', ''v'')]) (Some []) (\<lambda>txn. (None, txn))
       = (Some DbError, ?db)"
    using CommitArtifactData_rollback
        [where rx = "\<lambda>s. None"
           and fault = "\<lambda>op. case op of Write key val \<Rightarrow> key = ''artifact-provides''
                                  | _ \<Rightarrow> False"
           and txn_func = "\<lambda>txn. (None, txn)",
          THEN conjunct2, THEN conjunct2, THEN conjunct2, THEN conjunct2, THEN conjunct2,
          THEN mp, OF steps, THEN conjunct2, THEN conjunct2, THEN conjunct2, THEN conjunct1]
    by (simp add: artifact_name_key_def artifact_group_key_def artifact_provides_key_def)
  have w10: "CommitArtifactData (\<lambda>s. None) (\<lambda>x. False) ?db
          ''new'' ''g'' (Some [(''k'', ''v'')]) (Some [])
          (\<lambda>txn. if txn ''artifact-name'' = Some ''new''
                  then (Some (TxnError 2), txn) else (None, txn))
       = (Some (TxnError 2), ?db)"
    using CommitArtifactData_rollback
        [where rx = "\<lambda>s. None" and fault = "\<lambda>x. False"
           and txn_func = "\<lambda>txn. if txn ''artifact-name'' = Some ''new''
                  then (Some (TxnError 2), txn) else (None, txn)"
           and err = "TxnError 2",
          THEN conjunct2, THEN conjunct2, THEN conjunct2, THEN conjunct2, THEN conjunct2,
          THEN mp, OF steps, THEN conjunct2, THEN conjunct2, THEN conjunct2, THEN conjunct2]
    by (simp add: artifact_name_key_def artifact_group_key_def artifact_provides_key_def)
  show ?thesis
    by (intro conjI) (fact w1 w2 w3 w4 w5 w6 w7 w8 w9 w10)+
qed

text \<open>
  What a commit that succeeds leaves in the store, when no operation of the store fails and
  the continuation does nothing: the name and the group of the merged provides, the group
  record being removed when the group is empty, and the encoded blob when it is not empty.
  When the blob is empty the record \<^verbatim>\<open>artifact-provides\<close> keeps the value it had.
\<close>

lemma CommitArtifactData_success:
  assumes "LoadProvides (\<lambda>x. False) db = Inr existing"
    and "merge_provides rx existing new_provides clears_provides = Inr merged"
    and "modified = set_reserved artifact_name artifact_group merged"
    and "value_or_empty modified ''artifact_name'' \<noteq> []"
  shows "CommitArtifactData rx (\<lambda>x. False) db artifact_name artifact_group new_provides
           clears_provides (\<lambda>txn. (None, txn))
         = (None, db(artifact_name_key \<mapsto> value_or_empty modified ''artifact_name'',
                     artifact_group_key :=
                       (if value_or_empty modified ''artifact_group'' = [] then None
                        else Some (value_or_empty modified ''artifact_group'')),
                     artifact_provides_key :=
                       (if provides_str modified = [] then db artifact_provides_key
                        else Some (provides_str modified))))"
  using assms
  by (auto simp: CommitArtifactData_def WriteTransaction_def write_records_def Let_def
      txn_Write_def txn_Remove_def artifact_name_key_def artifact_group_key_def
      artifact_provides_key_def)

text \<open>
  Claim C4 at the input where the code departs from it.  The store holds a blob with the key
  \<^verbatim>\<open>a\<close>; a commit with neither new provides nor clear patterns succeeds, its merged
  mapping has the reserved name only and so encodes to the empty string, and the record
  \<^verbatim>\<open>artifact-provides\<close> still holds the old blob afterwards.  The group record, in
  contrast, is removed.  Loading the provides after the commit gives the new name together
  with the key of the old blob.
\<close>

theorem CommitArtifactData_stale_provides:
  "fst (CommitArtifactData rx (\<lambda>x. False)
          [''artifact-name'' \<mapsto> ''old'', ''artifact-group'' \<mapsto> ''g'',
           ''artifact-provides'' \<mapsto> ''{\"a\":\"b\"}'']
          ''new'' [] None None (\<lambda>txn. (None, txn))) = None
   \<and> provides_str (set_reserved ''new'' [] []) = []
   \<and> snd (CommitArtifactData rx (\<lambda>x. False)
          [''artifact-name'' \<mapsto> ''old'', ''artifact-group'' \<mapsto> ''g'',
           ''artifact-provides'' \<mapsto> ''{\"a\":\"b\"}'']
          ''new'' [] None None (\<lambda>txn. (None, txn))) ''artifact-provides''
       = Some ''{\"a\":\"b\"}''
   \<and> snd (CommitArtifactData rx (\<lambda>x. False)
          [''artifact-name'' \<mapsto> ''old'', ''artifact-group'' \<mapsto> ''g'',
           ''artifact-provides'' \<mapsto> ''{\"a\":\"b\"}'']
          ''new'' [] None None (\<lambda>txn. (None, txn))) ''artifact-group'' = None
   \<and> snd (CommitArtifactData rx (\<lambda>x. False)
          [''artifact-name'' \<mapsto> ''old'', ''artifact-group'' \<mapsto> ''g'',
           ''artifact-provides'' \<mapsto> ''{\"a\":\"b\"}'']
          ''new'' [] None None (\<lambda>txn. (None, txn))) ''artifact-name'' = Some ''new''
   \<and> LoadProvides (\<lambda>x. False)
        (snd (CommitArtifactData rx (\<lambda>x. False)
          [''artifact-name'' \<mapsto> ''old'', ''artifact-group'' \<mapsto> ''g'',
           ''artifact-provides'' \<mapsto> ''{\"a\":\"b\"}'']
          ''new'' [] None None (\<lambda>txn. (None, txn))))
       = Inr [(''artifact_name'', ''new''), (''a'', ''b'')]"
proof -
  have commit: "CommitArtifactData rx (\<lambda>x. False)
          [''artifact-name'' \<mapsto> ''old'', ''artifact-group'' \<mapsto> ''g'',
           ''artifact-provides'' \<mapsto> ''{\"a\":\"b\"}'']
          ''new'' [] None None (\<lambda>txn. (None, txn))
        = (None, [''artifact-name'' \<mapsto> ''new'',
                  ''artifact-provides'' \<mapsto> ''{\"a\":\"b\"}''])"
    by (simp add: commit_defs fun_upd_twist)
  have "provides_str (set_reserved ''new'' [] []) = []"
    by (simp add: provides_str_def provides_entry_def set_reserved_def)
  moreover have "LoadProvides (\<lambda>x. False)
      [''artifact-name'' \<mapsto> ''new'', ''artifact-provides'' \<mapsto> ''{\"a\":\"b\"}'']
      = Inr [(''artifact_name'', ''new''), (''a'', ''b'')]"
    by (simp add: commit_defs)
  ultimately show ?thesis
    unfolding commit by simp
qed

text \<open>
  Claim C7 at the inputs where the code departs from it.  The encoder copies a key into the
  blob without escaping it.  A key with a quote gives a blob that is not JSON, and decoding
  it is an error; a key made of a backslash and the letter \<^verbatim>\<open>n\<close> gives a blob that decodes to
  another key, the line feed.
\<close>

theorem provides_str_key_not_escaped:
  "provides_str [([CHR ''a'', CHR 0x22, CHR ''b''], ''v'')] = ''{\"a\"b\":\"v\"}''
   \<and> json_object (provides_str [([CHR ''a'', CHR 0x22, CHR ''b''], ''v'')]) = Inl JsonError
   \<and> provides_str [([CHR 0x5C, CHR ''n''], ''v'')]
       = [CHR ''{'', CHR 0x22, CHR 0x5C, CHR ''n'', CHR 0x22, CHR '':'', CHR 0x22, CHR ''v'',
          CHR 0x22, CHR ''}'']
   \<and> json_object (provides_str [([CHR 0x5C, CHR ''n''], ''v'')]) = Inr [(''\<newline>'', ''v'')]"
  by (simp add: commit_defs)

text \<open>
  Claim C9 at an input where the code departs from it.  The new provides have one key, a
  backslash followed by the letter \<^verbatim>\<open>n\<close>, and the list of clear patterns is empty.  Both
  commits succeed.  The first writes a blob with that key; the second reads the key back as
  a line feed, keeps it, adds the key of the new provides again, and writes a blob with two
  keys.  The provides can be loaded after the first commit and no longer after the second,
  whose blob has a line feed inside a string.
\<close>

theorem CommitArtifactData_twice_differs:
  "fst (CommitArtifactData rx (\<lambda>x. False) [''artifact-name'' \<mapsto> ''old'']
          ''new'' [] (Some [([CHR 0x5C, CHR ''n''], ''v'')]) (Some [])
          (\<lambda>txn. (None, txn))) = None
   \<and> snd (CommitArtifactData rx (\<lambda>x. False) [''artifact-name'' \<mapsto> ''old'']
          ''new'' [] (Some [([CHR 0x5C, CHR ''n''], ''v'')]) (Some [])
          (\<lambda>txn. (None, txn))) ''artifact-provides''
       = Some [CHR ''{'', CHR 0x22, CHR 0x5C, CHR ''n'', CHR 0x22, CHR '':'', CHR 0x22,
               CHR ''v'', CHR 0x22, CHR ''}'']
   \<and> LoadProvides (\<lambda>x. False)
        (snd (CommitArtifactData rx (\<lambda>x. False) [''artifact-name'' \<mapsto> ''old'']
                ''new'' [] (Some [([CHR 0x5C, CHR ''n''], ''v'')]) (Some [])
                (\<lambda>txn. (None, txn))))
       = Inr [(''artifact_name'', ''new''), (''\<newline>'', ''v'')]
   \<and> fst (CommitArtifactData rx (\<lambda>x. False)
          (snd (CommitArtifactData rx (\<lambda>x. False) [''artifact-name'' \<mapsto> ''old'']
                  ''new'' [] (Some [([CHR 0x5C, CHR ''n''], ''v'')]) (Some [])
                  (\<lambda>txn. (None, txn))))
          ''new'' [] (Some [([CHR 0x5C, CHR ''n''], ''v'')]) (Some [])
          (\<lambda>txn. (None, txn))) = None
   \<and> snd (CommitArtifactData rx (\<lambda>x. False)
          (snd (CommitArtifactData rx (\<lambda>x. False) [''artifact-name'' \<mapsto> ''old'']
                  ''new'' [] (Some [([CHR 0x5C, CHR ''n''], ''v'')]) (Some [])
                  (\<lambda>txn. (None, txn))))
          ''new'' [] (Some [([CHR 0x5C, CHR ''n''], ''v'')]) (Some [])
          (\<lambda>txn. (None, txn))) ''artifact-provides''
       = Some [CHR ''{'', CHR 0x22, CHR 0x0A, CHR 0x22, CHR '':'', CHR 0x22, CHR ''v'',
               CHR 0x22, CHR '','', CHR 0x22, CHR 0x5C, CHR ''n'', CHR 0x22, CHR '':'',
               CHR 0x22, CHR ''v'', CHR 0x22, CHR ''}'']
   \<and> LoadProvides (\<lambda>x. False)
        (snd (CommitArtifactData rx (\<lambda>x. False)
          (snd (CommitArtifactData rx (\<lambda>x. False) [''artifact-name'' \<mapsto> ''old'']
                  ''new'' [] (Some [([CHR 0x5C, CHR ''n''], ''v'')]) (Some [])
                  (\<lambda>txn. (None, txn))))
          ''new'' [] (Some [([CHR 0x5C, CHR ''n''], ''v'')]) (Some [])
          (\<lambda>txn. (None, txn))))
       = Inl JsonError"
proof -
  let ?blob1 = "[CHR ''{'', CHR 0x22, CHR 0x5C, CHR ''n'', CHR 0x22, CHR '':'', CHR 0x22,
                 CHR ''v'', CHR 0x22, CHR ''}'']"
  let ?blob2 = "[CHR ''{'', CHR 0x22, CHR 0x0A, CHR 0x22, CHR '':'', CHR 0x22, CHR ''v'',
                 CHR 0x22, CHR '','', CHR 0x22, CHR 0x5C, CHR ''n'', CHR 0x22, CHR '':'',
                 CHR 0x22, CHR ''v'', CHR 0x22, CHR ''}'']"
  have once: "CommitArtifactData rx (\<lambda>x. False) [''artifact-name'' \<mapsto> ''old'']
          ''new'' [] (Some [([CHR 0x5C, CHR ''n''], ''v'')]) (Some [])
          (\<lambda>txn. (None, txn))
        = (None, [''artifact-name'' \<mapsto> ''new'', ''artifact-provides'' \<mapsto> ?blob1])"
    by (simp add: commit_defs fun_upd_twist)
  have twice: "CommitArtifactData rx (\<lambda>x. False)
          [''artifact-name'' \<mapsto> ''new'', ''artifact-provides'' \<mapsto> ?blob1]
          ''new'' [] (Some [([CHR 0x5C, CHR ''n''], ''v'')]) (Some [])
          (\<lambda>txn. (None, txn))
        = (None, [''artifact-name'' \<mapsto> ''new'', ''artifact-provides'' \<mapsto> ?blob2])"
    by (simp add: commit_defs fun_upd_twist)
  have load1: "LoadProvides (\<lambda>x. False)
      [''artifact-name'' \<mapsto> ''new'', ''artifact-provides'' \<mapsto> ?blob1]
      = Inr [(''artifact_name'', ''new''), (''\<newline>'', ''v'')]"
    by (simp add: commit_defs)
  have load2: "LoadProvides (\<lambda>x. False)
      [''artifact-name'' \<mapsto> ''new'', ''artifact-provides'' \<mapsto> ?blob2]
      = Inl JsonError"
    by (simp add: commit_defs)
  show ?thesis
    by (simp only: once twice load1 load2 fst_conv snd_conv fun_upd_same simp_thms)
qed

section \<open>Properties of the reference engine\<close>

lemma Nil_in_conc: "[] \<in> conc A B \<longleftrightarrow> [] \<in> A \<and> [] \<in> B"
  by (auto simp: conc_def)

lemma Cons_in_conc:
  "c # w \<in> conc A B \<longleftrightarrow>
     ([] \<in> A \<and> c # w \<in> B) \<or> (\<exists>a b. w = a @ b \<and> c # a \<in> A \<and> b \<in> B)"
proof
  assume "c # w \<in> conc A B"
  then obtain a b where ab: "c # w = a @ b" "a \<in> A" "b \<in> B"
    by (auto simp: conc_def)
  show "([] \<in> A \<and> c # w \<in> B) \<or> (\<exists>a b. w = a @ b \<and> c # a \<in> A \<and> b \<in> B)"
  proof (cases a)
    case Nil
    with ab show ?thesis by simp
  next
    case (Cons x a')
    with ab have "w = a' @ b" "c # a' \<in> A" by simp_all
    with ab(3) show ?thesis by blast
  qed
next
  assume "([] \<in> A \<and> c # w \<in> B) \<or> (\<exists>a b. w = a @ b \<and> c # a \<in> A \<and> b \<in> B)"
  then show "c # w \<in> conc A B"
  proof
    assume "[] \<in> A \<and> c # w \<in> B"
    then have "[] @ (c # w) \<in> conc A B"
      unfolding conc_def by blast
    then show ?thesis by simp
  next
    assume "\<exists>a b. w = a @ b \<and> c # a \<in> A \<and> b \<in> B"
    then obtain a b where "w = a @ b" "c # a \<in> A" "b \<in> B" by blast
    then have "(c # a) @ b \<in> conc A B"
      unfolding conc_def by blast
    with \<open>w = a @ b\<close> show ?thesis by simp
  qed
qed

lemma Cons_in_star:
  "c # w \<in> star A \<longleftrightarrow> (\<exists>a b. w = a @ b \<and> c # a \<in> A \<and> b \<in> star A)"
proof
  have "\<exists>a b. w = a @ b \<and> c # a \<in> A \<and> b \<in> star A" if "v \<in> star A" "v = c # w" for v
    using that
  proof (induction arbitrary: w rule: star.induct)
    case star_Nil
    then show ?case by simp
  next
    case (star_step a v)
    show ?case
    proof (cases a)
      case Nil
      with star_step show ?thesis by simp
    next
      case (Cons x a')
      with star_step.prems have "w = a' @ v" "x = c" by simp_all
      with star_step.hyps Cons show ?thesis by blast
    qed
  qed
  then show "c # w \<in> star A \<Longrightarrow> \<exists>a b. w = a @ b \<and> c # a \<in> A \<and> b \<in> star A"
    by blast
next
  assume "\<exists>a b. w = a @ b \<and> c # a \<in> A \<and> b \<in> star A"
  then obtain a b where "w = a @ b" "c # a \<in> A" "b \<in> star A" by blast
  then show "c # w \<in> star A"
    using star_step [of "c # a" A b] by simp
qed

lemma nullable_lang: "nullable r \<longleftrightarrow> [] \<in> lang r"
  by (induction r) (auto simp: Nil_in_conc intro: star.star_Nil)

lemma in_conc: "w \<in> conc A B \<longleftrightarrow> (\<exists>a b. w = a @ b \<and> a \<in> A \<and> b \<in> B)"
  by (auto simp: conc_def)

lemma lang_deriv: "w \<in> lang (deriv c r) \<longleftrightarrow> c # w \<in> lang r"
proof (induction r arbitrary: w)
  case (Times r s)
  have left: "w \<in> conc (lang (deriv c r)) (lang s)
      \<longleftrightarrow> (\<exists>a b. w = a @ b \<and> c # a \<in> lang r \<and> b \<in> lang s)"
    by (simp add: in_conc Times.IH)
  show ?case
  proof (cases "nullable r")
    case True
    then show ?thesis
      using left Times.IH(2) [of w] by (simp add: Cons_in_conc nullable_lang) blast
  next
    case False
    then show ?thesis
      using left by (simp add: Cons_in_conc nullable_lang)
  qed
next
  case (Star r)
  have "w \<in> conc (lang (deriv c r)) (star (lang r))
      \<longleftrightarrow> (\<exists>a b. w = a @ b \<and> c # a \<in> lang r \<and> b \<in> star (lang r))"
    by (simp add: in_conc Star.IH)
  then show ?case
    by (simp add: Cons_in_star)
qed auto

lemma regex_match_lang: "regex_match r key \<longleftrightarrow> key \<in> lang r"
  unfolding regex_match_def
  by (induction key arbitrary: r) (auto simp: nullable_lang lang_deriv)


lemma bre_parse_plain:
  "plain_pattern pattern \<Longrightarrow>
   bre_parse [] cur (escaped pattern) = Compiled (seq (rev cur @ map glob_item pattern))"
proof (induction pattern arbitrary: cur)
  case Nil
  show ?case by simp
next
  case (Cons c pattern)
  then have plain: "plain_pattern pattern" and
    c: "c \<noteq> CHR 0x5C" "c \<noteq> CHR ''(''" "c \<noteq> CHR '')''" "c \<noteq> CHR ''{''" "c \<noteq> CHR ''}''"
       "c \<noteq> CHR '']''" "c \<noteq> CHR ''+''" "c \<noteq> CHR ''?''" "c \<noteq> CHR ''|''" "c \<noteq> CHR 0x00"
    by (simp_all add: plain_pattern_def)
  consider (star) "c = CHR ''*''"
    | (meta) "c = CHR ''.'' \<or> c = CHR ''^'' \<or> c = CHR ''$'' \<or> c = CHR ''[''"
    | (ordinary) "c \<noteq> CHR ''*''" "c \<notin> set meta_characters"
    using c by (auto simp: meta_characters_def)
  then show ?case
  proof cases
    case star
    then show ?thesis
      using Cons.IH [OF plain, of "Star Dot # cur"] by (simp add: glob_item_def meta_characters_def)
  next
    case meta
    then show ?thesis
      using Cons.IH [OF plain, of "Atom c # cur"] by (auto simp: glob_item_def meta_characters_def)
  next
    case ordinary
    then show ?thesis
      using Cons.IH [OF plain, of "Atom c # cur"] c
      by (auto simp: glob_item_def meta_characters_def)
  qed
qed

lemma star_Dot: "w \<in> star (lang Dot) \<longleftrightarrow> CHR 0x00 \<notin> set w"
proof (induction w)
  case Nil
  show ?case by (simp add: star.star_Nil)
next
  case (Cons c w)
  have "c # w \<in> star (lang Dot) \<longleftrightarrow> c \<noteq> CHR 0x00 \<and> w \<in> star (lang Dot)"
    by (auto simp: Cons_in_star)
  with Cons show ?case by auto
qed

lemma glob_match_lang:
  "CHR 0x00 \<notin> set key \<Longrightarrow>
   key \<in> lang (seq (map glob_item pattern)) \<longleftrightarrow> glob_match pattern key"
proof (induction pattern key rule: glob_match.induct)
  case 1
  show ?case by simp
next
  case (2 k key)
  show ?case by simp
next
  case (3 p pattern)
  then show ?case
    by (auto simp: Nil_in_conc glob_item_def star.star_Nil)
next
  case (4 p pattern k key)
  show ?case
  proof (cases "p = CHR ''*''")
    case True
    have nul: "k \<noteq> CHR 0x00" "CHR 0x00 \<notin> set key" using "4.prems" by auto
    define S where "S = star (lang Dot)"
    define L where "L = lang (seq (map glob_item pattern))"
    have item: "lang (seq (map glob_item (p # pattern))) = conc S L"
      using True by (simp add: glob_item_def S_def L_def del: lang.simps(4))
    have S_Nil: "[] \<in> S" by (simp add: S_def star.star_Nil)
    have S_Cons: "k # a \<in> S \<longleftrightarrow> a \<in> S" for a
      unfolding S_def star_Dot using nul by simp
    have "k # key \<in> lang (seq (map glob_item (p # pattern))) \<longleftrightarrow> k # key \<in> conc S L"
      by (simp only: item)
    also have "\<dots> \<longleftrightarrow> k # key \<in> L \<or> (\<exists>a b. key = a @ b \<and> a \<in> S \<and> b \<in> L)"
      by (simp only: Cons_in_conc S_Nil S_Cons simp_thms)
    also have "\<dots> \<longleftrightarrow> k # key \<in> L \<or> key \<in> conc S L"
      by (simp only: in_conc)
    also have "\<dots> \<longleftrightarrow> glob_match pattern (k # key) \<or> glob_match (p # pattern) key"
      using "4.IH"(1) [OF True "4.prems"] "4.IH"(2) [OF True nul(2)]
      by (simp only: item L_def)
    also have "\<dots> \<longleftrightarrow> glob_match (p # pattern) (k # key)"
      using True by simp
    finally show ?thesis .
  next
    case False
    define L where "L = lang (seq (map glob_item pattern))"
    have item: "lang (seq (map glob_item (p # pattern))) = conc {[p]} L"
      using False by (simp add: glob_item_def L_def)
    have "k # key \<in> lang (seq (map glob_item (p # pattern))) \<longleftrightarrow> k # key \<in> conc {[p]} L"
      by (simp only: item)
    also have "\<dots> \<longleftrightarrow> p = k \<and> key \<in> L"
      by (auto simp: Cons_in_conc)
    also have "\<dots> \<longleftrightarrow> p = k \<and> glob_match pattern key"
      using "4.IH"(3) [OF False] "4.prems" by (simp add: L_def)
    also have "\<dots> \<longleftrightarrow> glob_match (p # pattern) (k # key)"
      using False by simp
    finally show ?thesis .
  qed
qed

lemma pattern_matches_plain:
  assumes "plain_pattern pattern" "CHR 0x00 \<notin> set key"
  shows "posix_basic other (escaped pattern) \<noteq> None"
    and "pattern_matches (posix_basic other) pattern key = glob_match pattern key"
  using assms bre_parse_plain [of pattern "[]"]
  by (simp_all add: pattern_matches_def posix_basic_def regex_match_lang glob_match_lang)


lemma glob_match_literal: "CHR ''*'' \<notin> set pattern \<Longrightarrow> glob_match pattern key \<longleftrightarrow> key = pattern"
  by (induction pattern key rule: glob_match.induct) auto

lemma glob_match_star: "glob_match ''*'' key"
  by (induction key) auto

lemma glob_match_prefix: "glob_match ''a*'' key \<longleftrightarrow> prefix ''a'' key"
  by (cases key) (auto simp: glob_match_star)

text \<open>
  On plain patterns and keys without NUL the filter of the code, run with the reference
  engine, removes exactly the keys that the pattern matches as a glob.
\<close>

lemma FilterProvides_plain:
  assumes "list_all plain_pattern clears"
    and "\<forall>provide \<in> set m. CHR 0x00 \<notin> set (fst provide)"
  shows "FilterProvides (posix_basic other) [] clears m =
           Inr (filter (\<lambda>provide. \<forall>pattern \<in> set clears. \<not> glob_match pattern (fst provide)) m)"
proof -
  have "all_compile (posix_basic other) clears"
    using assms(1) pattern_matches_plain(1) [where key = "[]"]
    by (auto simp: all_compile_def list_all_iff)
  moreover have "filter (\<lambda>provide. \<forall>pattern \<in> set clears.
        \<not> pattern_matches (posix_basic other) pattern (fst provide)) m
      = filter (\<lambda>provide. \<forall>pattern \<in> set clears. \<not> glob_match pattern (fst provide)) m"
    using assms by (intro filter_cong) (auto simp: list_all_iff pattern_matches_plain(2))
  ultimately show ?thesis
    by (simp add: FilterProvides_spec foldl_pattern_filter add_provides_Nil)
qed

lemmas filter_defs = FilterProvides_def posix_basic_def meta_characters_def erase_keys_def
  matching_keys_def regex_match_def add_provides_def AList.delete_eq

text \<open>
  Claim C1 at inputs where the code departs from it.  Only clear patterns are given.  With
  the pattern \<^verbatim>\<open>(a)\<close> the merge keeps the key \<^verbatim>\<open>(a)\<close> and drops the key \<^verbatim>\<open>a\<close>, where
  filtering \<open>E\<close> by the pattern, read as a glob, drops \<^verbatim>\<open>(a)\<close> and keeps \<^verbatim>\<open>a\<close>.  With the
  pattern \<^verbatim>\<open>(\<close> the merge computes no mapping at all: it ends with the assertion error,
  with or without new provides.
\<close>

theorem merge_provides_pattern_defect:
  "merge_provides (posix_basic other)
       [(''artifact_name'', ''app''), (''a'', ''1''), (''(a)'', ''2'')] None (Some [''(a)''])
     = Inr [(''artifact_name'', ''app''), (''(a)'', ''2'')]
   \<and> filter (\<lambda>provide. \<not> glob_match ''(a)'' (fst provide))
       [(''artifact_name'', ''app''), (''a'', ''1''), (''(a)'', ''2'')]
     = [(''artifact_name'', ''app''), (''a'', ''1'')]
   \<and> merge_provides (posix_basic other)
       [(''artifact_name'', ''app''), (''a'', ''1'')] None (Some [''(''])
     = Inl AssertFailed
   \<and> merge_provides (posix_basic other)
       [(''artifact_name'', ''app''), (''a'', ''1'')] (Some [(''b'', ''2'')]) (Some [''(''])
     = Inl AssertFailed"
  by (simp add: merge_provides_def filter_defs)

text \<open>
  Claim C5 at inputs where the code departs from it.  The pattern \<^verbatim>\<open>(a)\<close> has no star.
  As a glob it matches the key \<^verbatim>\<open>(a)\<close> and no other.  \<open>escaped\<close> turns it into
  \<^verbatim>\<open>\(a\)\<close>, which in the basic grammar is a group around the letter; the filter removes
  the key \<^verbatim>\<open>a\<close> and keeps the key \<^verbatim>\<open>(a)\<close>.  The pattern of two backslashes is copied
  as it is and read as one escaped backslash; the filter removes the key of one backslash
  and keeps the key of two.
\<close>

theorem FilterProvides_paren_pattern:
  "escaped ''(a)'' = [CHR 0x5C, CHR ''('', CHR ''a'', CHR 0x5C, CHR '')'']
   \<and> bre_parse [] [] (escaped ''(a)'') = Compiled (Times (Times (Atom CHR ''a'') One) One)
   \<and> FilterProvides (posix_basic other) [] [''(a)''] [(''a'', ''1''), (''(a)'', ''2'')]
       = Inr [(''(a)'', ''2'')]
   \<and> glob_match ''(a)'' ''(a)'' \<and> \<not> glob_match ''(a)'' ''a''
   \<and> escaped [CHR 0x5C, CHR 0x5C] = [CHR 0x5C, CHR 0x5C]
   \<and> bre_parse [] [] (escaped [CHR 0x5C, CHR 0x5C]) = Compiled (Times (Atom (CHR 0x5C)) One)
   \<and> FilterProvides (posix_basic other) [] [[CHR 0x5C, CHR 0x5C]]
         [([CHR 0x5C], ''1''), ([CHR 0x5C, CHR 0x5C], ''2'')]
       = Inr [([CHR 0x5C, CHR 0x5C], ''2'')]
   \<and> glob_match [CHR 0x5C, CHR 0x5C] [CHR 0x5C, CHR 0x5C]
   \<and> \<not> glob_match [CHR 0x5C, CHR 0x5C] [CHR 0x5C]"
  by (simp add: filter_defs)

text \<open>
  Claim C6 at inputs where the code departs from it.  For the pattern \<^verbatim>\<open>(\<close> the text built
  is \<^verbatim>\<open>\(\<close>, a group that is never closed; for the pattern made of one backslash it is
  that backslash, an escape with nothing after it.  Neither compiles, \<open>FilterProvides\<close>
  returns the error of its assertion, and so does \<open>CommitArtifactData\<close>.
\<close>

theorem FilterProvides_compile_failure:
  "escaped ''('' = [CHR 0x5C, CHR ''(''] \<and> bre_parse [] [] (escaped ''('') = Regex_error
   \<and> FilterProvides (posix_basic other) new_provides [''(''] to_modify = Inl AssertFailed
   \<and> escaped [CHR 0x5C] = [CHR 0x5C] \<and> bre_parse [] [] (escaped [CHR 0x5C]) = Regex_error
   \<and> FilterProvides (posix_basic other) new_provides [[CHR 0x5C]] to_modify = Inl AssertFailed
   \<and> CommitArtifactData (posix_basic other) (\<lambda>x. False) [''artifact-name'' \<mapsto> ''old'']
        ''new'' [] None (Some [''('']) (\<lambda>txn. (None, txn))
       = (Some AssertFailed, [''artifact-name'' \<mapsto> ''old''])"
  by (simp add: filter_defs commit_defs)

end
